theory Spec2Isabelle
  imports Main
begin

section \<open>Interactive array and matrix input (array\_input.py, matrix\_input.py)\<close>

text \<open>
  The two modules are terminal editors for a fixed-size array and a fixed-size matrix.
  Each one keeps a grid of strings (the empty string marks an empty cell), a cursor, an
  edit buffer and an error message, and processes one key per loop iteration.

  Strings are \<open>char list\<close>: the model covers texts over the code points 0..255.
  Exceptions are values of \<open>exn\<close>; a computation that may raise returns \<open>exn + 'a\<close>.
  The rendering code (\<open>display_array\<close>, \<open>display_matrix\<close>, \<open>move_cursor_up\<close>,
  \<open>clear_line\<close> and the two line counters) only prints and is left out.
\<close>

datatype exn = ValueError | OverflowError | TypeError | IndexError

subsection \<open>The Python built-ins the modules call\<close>

text \<open>
  A Python \<open>float\<close> is an IEEE binary64 value: \<open>Finite neg m e\<close> stands for
  \<open>(-1)^neg * m * 2^e\<close> with \<open>m < 2^53\<close> and \<open>-1074 \<le> e \<le> 971\<close>, normalised so that
  \<open>2^52 \<le> m\<close> unless \<open>e = -1074\<close>; zero is \<open>Finite neg 0 0\<close>.
\<close>

datatype pyfloat = Finite bool int int | Infinity bool | NaN

function bit_length :: "int \<Rightarrow> int" where
  "bit_length n = (if n \<le> 0 then 0 else 1 + bit_length (n div 2))"
  by pat_completeness auto
termination
  by (relation "measure nat") auto

text \<open>\<open>scale2 n d e\<close> is the fraction \<open>n / (d * 2^e)\<close>, kept as numerator and denominator.\<close>

definition scale2 :: "int \<Rightarrow> int \<Rightarrow> int \<Rightarrow> int \<times> int" where
  "scale2 n d e = (if 0 \<le> e then (n, d * 2 ^ nat e) else (n * 2 ^ nat (- e), d))"

definition round_half_even :: "int \<times> int \<Rightarrow> int" where
  "round_half_even nd =
     (let q = fst nd div snd nd; r = fst nd mod snd nd
      in if snd nd < 2 * r \<or> (2 * r = snd nd \<and> odd q) then q + 1 else q)"

text \<open>
  \<open>to_double neg n d\<close> rounds the rational \<open>n / d\<close> (with \<open>0 \<le> n\<close>, \<open>0 < d\<close>) to the nearest
  binary64 value, ties to even, with gradual underflow and overflow to infinity.
\<close>

definition to_double :: "bool \<Rightarrow> int \<Rightarrow> int \<Rightarrow> pyfloat" where
  "to_double neg n d =
     (if n \<le> 0 then Finite neg 0 0
      else
        let e0 = bit_length n - bit_length d - 53;
            q0 = fst (scale2 n d e0) div snd (scale2 n d e0);
            e1 = (if 2 ^ 53 \<le> q0 then e0 + 1 else e0);
            e = max e1 (- 1074);
            m = round_half_even (scale2 n d e);
            m' = (if 2 ^ 53 \<le> m then m div 2 else m);
            e' = (if 2 ^ 53 \<le> m then e + 1 else e)
        in if 971 < e' then Infinity neg
           else if m' = 0 then Finite neg 0 0
           else Finite neg m' e')"

definition digit_val :: "char \<Rightarrow> int option" where
  "digit_val c =
     (let n = (of_char c :: nat) in if 48 \<le> n \<and> n \<le> 57 then Some (int n - 48) else None)"

definition is_digit :: "char \<Rightarrow> bool" where
  "is_digit c = (digit_val c \<noteq> None)"

fun digits_val :: "int \<Rightarrow> string \<Rightarrow> int" where
  "digits_val acc [] = acc"
| "digits_val acc (c # cs) =
     digits_val (10 * acc + (case digit_val c of None \<Rightarrow> 0 | Some d \<Rightarrow> d)) cs"

text \<open>
  \<open>float(str)\<close> first turns the non-ASCII spaces (U+0085 and U+00A0 below 256) into a
  blank, then strips the ASCII white space at both ends.
\<close>

definition is_space :: "char \<Rightarrow> bool" where
  "is_space c = (let n = (of_char c :: nat) in (9 \<le> n \<and> n \<le> 13) \<or> n = 32)"

definition to_ascii_space :: "char \<Rightarrow> char" where
  "to_ascii_space c = (if c = CHR 0x85 \<or> c = CHR 0xA0 then CHR '' '' else c)"

definition strip_space :: "string \<Rightarrow> string" where
  "strip_space s = rev (dropWhile is_space (rev (dropWhile is_space s)))"

text \<open>An underscore is allowed only between two digits; \<open>prev\<close> is the character before.\<close>

fun underscores_ok :: "char \<Rightarrow> string \<Rightarrow> bool" where
  "underscores_ok prev [] = (prev \<noteq> CHR ''_'')"
| "underscores_ok prev (c # cs) =
     ((if c = CHR ''_'' then is_digit prev else prev \<noteq> CHR ''_'' \<or> is_digit c)
      \<and> underscores_ok c cs)"

text \<open>Case-insensitive match against a lower-case ASCII word.\<close>

definition ci_match :: "string \<Rightarrow> string \<Rightarrow> bool" where
  "ci_match s pat =
     list_all2 (\<lambda>c p. c = p \<or> (of_char c :: nat) + 32 = of_char p) s pat"

definition split_sign :: "string \<Rightarrow> bool \<times> string" where
  "split_sign s =
     (case s of
        [] \<Rightarrow> (False, [])
      | c # cs \<Rightarrow>
          if c = CHR ''-'' then (True, cs)
          else if c = CHR ''+'' then (False, cs)
          else (False, s))"

definition parse_exponent :: "string \<Rightarrow> int option" where
  "parse_exponent s =
     (case s of
        [] \<Rightarrow> Some 0
      | c # cs \<Rightarrow>
          if c = CHR ''e'' \<or> c = CHR ''E'' then
            (let (neg, ds) = split_sign cs
             in if ds \<noteq> [] \<and> list_all is_digit ds
                then Some ((if neg then - 1 else 1) * digits_val 0 ds)
                else None)
          else None)"

text \<open>
  A decimal literal: digits with an optional point (at least one digit in all) and an
  optional exponent; anything left over makes the text invalid.
\<close>

definition parse_decimal :: "bool \<Rightarrow> string \<Rightarrow> exn + pyfloat" where
  "parse_decimal neg s =
     (let ip = takeWhile is_digit s;
          r1 = dropWhile is_digit s;
          fp = (case r1 of [] \<Rightarrow> []
                | c # cs \<Rightarrow> if c = CHR ''.'' then takeWhile is_digit cs else []);
          r2 = (case r1 of [] \<Rightarrow> []
                | c # cs \<Rightarrow> if c = CHR ''.'' then dropWhile is_digit cs else r1)
      in if ip @ fp = [] then Inl ValueError
         else case parse_exponent r2 of
                None \<Rightarrow> Inl ValueError
              | Some x \<Rightarrow>
                  (let k = x - int (length fp); D = digits_val 0 (ip @ fp)
                   in Inr (if 0 \<le> k then to_double neg (D * 10 ^ nat k) 1
                           else to_double neg D (10 ^ nat (- k)))))"

text \<open>\<open>float(value)\<close> for a string: the only exception it raises is \<open>ValueError\<close>.\<close>

definition py_float :: "string \<Rightarrow> exn + pyfloat" where
  "py_float value =
     (let s = strip_space (map to_ascii_space value)
      in if CHR ''_'' \<in> set s \<and> \<not> underscores_ok (CHR 0x00) s then Inl ValueError
         else
           let (neg, body) = split_sign (filter (\<lambda>c. c \<noteq> CHR ''_'') s)
           in if ci_match body ''inf'' \<or> ci_match body ''infinity'' then Inr (Infinity neg)
              else if ci_match body ''nan'' then Inr NaN
              else parse_decimal neg body)"

text \<open>
  \<open>repr\<close> of a float (what \<open>f"{num}"\<close> prints): the shortest decimal digit string that
  \<open>float\<close> reads back as the same value, in positional notation when the decimal point
  falls within the first 16 digits or at most 3 zeros follow it, in exponent notation
  otherwise.
\<close>

function ndigits :: "int \<Rightarrow> int" where
  "ndigits n = (if n < 10 then 1 else 1 + ndigits (n div 10))"
  by pat_completeness auto
termination
  by (relation "measure nat") auto

function lead_zeros :: "int \<Rightarrow> int \<Rightarrow> int" where
  "lead_zeros n d = (if n \<le> 0 \<or> d \<le> n then 0 else 1 + lead_zeros (10 * n) d)"
  by pat_completeness auto
termination
  by (relation "measure (\<lambda>(n, d). nat (d - n))") auto

text \<open>The \<open>k\<close> with \<open>10^k \<le> n / d < 10^(k+1)\<close>, for \<open>0 < n\<close> and \<open>0 < d\<close>.\<close>

definition decimal_exponent :: "int \<Rightarrow> int \<Rightarrow> int" where
  "decimal_exponent n d = (if d \<le> n then ndigits (n div d) - 1 else - lead_zeros n d)"

definition scale10 :: "int \<Rightarrow> int \<Rightarrow> int \<Rightarrow> int \<times> int" where
  "scale10 n d s = (if 0 \<le> s then (n, d * 10 ^ nat s) else (n * 10 ^ nat (- s), d))"

definition dec_to_double :: "bool \<Rightarrow> int \<Rightarrow> int \<Rightarrow> pyfloat" where
  "dec_to_double neg c s =
     (if 0 \<le> s then to_double neg (c * 10 ^ nat s) 1 else to_double neg c (10 ^ nat (- s)))"

text \<open>
  \<open>candidate m e s\<close>: of the two multiples of \<open>10^s\<close> around \<open>m * 2^e\<close>, the one that reads
  back as \<open>m * 2^e\<close> (the nearer one when both do), as a multiple.
\<close>

definition candidate :: "int \<Rightarrow> int \<Rightarrow> int \<Rightarrow> int option" where
  "candidate m e s =
     (let v = scale2 m 1 (- e);
          ab = scale10 (fst v) (snd v) s;
          lo = fst ab div snd ab;
          r = fst ab mod snd ab;
          hi = (if r = 0 then lo else lo + 1);
          ok_lo = (dec_to_double False lo s = Finite False m e);
          ok_hi = (dec_to_double False hi s = Finite False m e)
      in if ok_lo \<and> ok_hi
         then Some (if 2 * r < snd ab \<or> (2 * r = snd ab \<and> even lo) then lo else hi)
         else if ok_lo then Some lo
         else if ok_hi then Some hi
         else None)"

text \<open>Try 1 digit, then 2, ... up to 17 digits (which always read back).\<close>

fun shortest :: "nat \<Rightarrow> int \<Rightarrow> int \<Rightarrow> int \<Rightarrow> int \<times> int" where
  "shortest 0 m e s =
     (case candidate m e s of
        Some c \<Rightarrow> (c, s)
      | None \<Rightarrow>
          (round_half_even (scale10 (fst (scale2 m 1 (- e))) (snd (scale2 m 1 (- e))) s), s))"
| "shortest (Suc fuel) m e s =
     (case candidate m e s of
        Some c \<Rightarrow> (c, s)
      | None \<Rightarrow> shortest fuel m e (s - 1))"

function strip_zeros :: "int \<Rightarrow> int \<Rightarrow> int \<times> int" where
  "strip_zeros c s =
     (if 0 < c \<and> c mod 10 = 0 then strip_zeros (c div 10) (s + 1) else (c, s))"
  by pat_completeness auto
termination
  by (relation "measure (\<lambda>(c, s). nat c)") auto

definition digit_char :: "int \<Rightarrow> char" where
  "digit_char n = ''0123456789'' ! nat n"

function int_digits :: "int \<Rightarrow> string" where
  "int_digits n =
     (if n < 10 then [digit_char n] else int_digits (n div 10) @ [digit_char (n mod 10)])"
  by pat_completeness auto
termination
  by (relation "measure nat") auto

text \<open>\<open>str(i)\<close> for an integer.\<close>

definition py_str_int :: "int \<Rightarrow> string" where
  "py_str_int i = (if i < 0 then CHR ''-'' # int_digits (- i) else int_digits i)"

text \<open>\<open>ds\<close> are the significant digits, \<open>decpt\<close> the position of the decimal point in them.\<close>

definition format_repr :: "string \<Rightarrow> int \<Rightarrow> string" where
  "format_repr ds decpt =
     (if decpt \<le> - 4 \<or> 16 < decpt then
        take 1 ds @ (if 1 < length ds then CHR ''.'' # drop 1 ds else [])
          @ [CHR ''e'', if decpt - 1 < 0 then CHR ''-'' else CHR ''+'']
          @ (if \<bar>decpt - 1\<bar> < 10 then ''0'' else []) @ int_digits \<bar>decpt - 1\<bar>
      else if decpt \<le> 0 then ''0.'' @ replicate (nat (- decpt)) (CHR ''0'') @ ds
      else if int (length ds) \<le> decpt
        then ds @ replicate (nat decpt - length ds) (CHR ''0'') @ ''.0''
      else take (nat decpt) ds @ CHR ''.'' # drop (nat decpt) ds)"

fun py_repr :: "pyfloat \<Rightarrow> string" where
  "py_repr NaN = ''nan''"
| "py_repr (Infinity neg) = (if neg then ''-inf'' else ''inf'')"
| "py_repr (Finite neg m e) =
     (if neg then ''-'' else []) @
     (if m \<le> 0 then ''0.0''
      else
        let v = scale2 m 1 (- e);
            cs = shortest 16 m e (decimal_exponent (fst v) (snd v));
            cs' = strip_zeros (fst cs) (snd cs);
            ds = int_digits (fst cs')
        in format_repr ds (int (length ds) + snd cs'))"

text \<open>
  \<open>int(x)\<close> for a float truncates toward zero; it raises \<open>ValueError\<close> on a NaN and
  \<open>OverflowError\<close> on an infinity.
\<close>

fun py_int :: "pyfloat \<Rightarrow> exn + int" where
  "py_int NaN = Inl ValueError"
| "py_int (Infinity neg) = Inl OverflowError"
| "py_int (Finite neg m e) =
     (let a = (if 0 \<le> e then m * 2 ^ nat e else m div 2 ^ nat (- e))
      in Inr (if neg then - a else a))"

text \<open>\<open>int(float(value))\<close>.\<close>

definition py_int_float :: "string \<Rightarrow> exn + int" where
  "py_int_float value = (case py_float value of Inl e \<Rightarrow> Inl e | Inr num \<Rightarrow> py_int num)"

text \<open>\<open>s.rstrip(c)\<close> for a one-character \<open>c\<close>.\<close>

definition rstrip :: "char \<Rightarrow> string \<Rightarrow> string" where
  "rstrip c s = rev (dropWhile (\<lambda>x. x = c) (rev s))"

text \<open>
  \<open>ch.isprintable()\<close> for one character below 256: the C0 and C1 controls, DEL, the
  no-break space and the soft hyphen are not printable.
\<close>

definition py_isprintable :: "char \<Rightarrow> bool" where
  "py_isprintable c =
     (let n = (of_char c :: nat) in (32 \<le> n \<and> n \<le> 126) \<or> (161 \<le> n \<and> n \<noteq> 173))"

text \<open>A list comprehension whose element expression may raise.\<close>

fun map_exn :: "('a \<Rightarrow> exn + 'b) \<Rightarrow> 'a list \<Rightarrow> exn + 'b list" where
  "map_exn f [] = Inr []"
| "map_exn f (x # xs) =
     (case f x of
        Inl e \<Rightarrow> Inl e
      | Inr y \<Rightarrow> (case map_exn f xs of Inl e \<Rightarrow> Inl e | Inr ys \<Rightarrow> Inr (y # ys)))"

subsection \<open>Formatter and default validator\<close>

text \<open>
  \<open>format_number\<close> of matrix\_input.py; the copy in array\_input.py has no \<open>as_symbol\<close>
  parameter and is the instance \<open>as_symbol = False\<close>. Only \<open>ValueError\<close> is caught.
\<close>

definition format_number :: "string \<Rightarrow> bool \<Rightarrow> bool \<Rightarrow> exn + string" where
  "format_number value as_int as_symbol =
     (if as_symbol then Inr value
      else if as_int then
        (case py_int_float value of
           Inl ValueError \<Rightarrow> Inr value
         | Inl e \<Rightarrow> Inl e
         | Inr i \<Rightarrow> Inr (py_str_int i))
      else
        (case py_float value of
           Inl ValueError \<Rightarrow> Inr value
         | Inl e \<Rightarrow> Inl e
         | Inr num \<Rightarrow>
             (let s = py_repr num
              in Inr (if CHR ''.'' \<in> set s then rstrip (CHR ''.'') (rstrip (CHR ''0'') s)
                      else s))))"

text \<open>
  The two messages are Russian in the source (``enter a valid number'', ``enter one
  symbol''); they are transliterated here.
\<close>

definition msg_number :: string where
  "msg_number = ''Vvedite korrektnoe chislo''"

definition msg_symbol :: string where
  "msg_symbol = ''Vvedite odin simvol''"

text \<open>
  \<open>default_validator\<close> of matrix\_input.py; the one of array\_input.py is the instance
  \<open>as_symbol = False\<close>.
\<close>

definition default_validator :: "bool \<Rightarrow> bool \<Rightarrow> string \<Rightarrow> exn + bool \<times> string" where
  "default_validator as_int as_symbol value =
     (if as_symbol then
        (if length value = 1 then Inr (True, []) else Inr (False, msg_symbol))
      else if as_int then
        (case py_int_float value of
           Inl ValueError \<Rightarrow> Inr (False, msg_number)
         | Inl e \<Rightarrow> Inl e
         | Inr _ \<Rightarrow> Inr (True, []))
      else
        (case py_float value of
           Inl ValueError \<Rightarrow> Inr (False, msg_number)
         | Inl e \<Rightarrow> Inl e
         | Inr _ \<Rightarrow> Inr (True, [])))"

text \<open>
  A caller's validator is a function from the text to \<open>(is_valid, error)\<close>;
  \<open>if validator is None: validator = default_validator\<close>.
\<close>

type_synonym validator = "string \<Rightarrow> bool \<times> string"

definition call_validator ::
  "validator option \<Rightarrow> bool \<Rightarrow> bool \<Rightarrow> string \<Rightarrow> exn + bool \<times> string" where
  "call_validator validator as_int as_symbol value =
     (case validator of
        None \<Rightarrow> default_validator as_int as_symbol value
      | Some v \<Rightarrow> Inr (v value))"

subsection \<open>Editor state and keys\<close>

text \<open>
  The variables shared by both loops. A step of a loop either goes on with a new state,
  returns \<open>None\<close> (the user cancelled), returns the grid, or raises.
\<close>

record editor_state =
  current_value :: string
  error_message :: string
  validated :: "string list"

text \<open>
  \<open>validated\<close> is a ghost variable (not in the source): the argument of every call of
  \<open>validator\<close> made so far, in order.
\<close>

datatype key = Enter | Backspace | Arrow char | Escape | Printable char | Ignored

datatype 's step = Continue 's | Cancel | Finish 's | Raise exn

text \<open>
  The outcome of a session on the keys typed so far: it returned, it raised, or it is
  blocked in \<open>getch\<close> waiting for the next key.
\<close>

datatype ('s, 'r) run = Returned 'r | Raised exn | Waiting 's

subsection \<open>array\_input.py\<close>

record array_state = editor_state +
  array :: "string list"
  current_pos :: nat
  committed :: "nat set"

text \<open>
  \<open>committed\<close> is a ghost variable (not in the source): the indices a commit has written.
  \<open>size\<close> is a natural number here (a negative \<open>size\<close> gives the same empty list as 0), and
  the guard \<open>current_pos < size - 1\<close> is written \<open>current_pos + 1 < size\<close>.
\<close>

text \<open>One iteration's reading of the keyboard: up to three calls of \<open>getch\<close>.\<close>

fun array_getkey :: "string \<Rightarrow> (key \<times> string) option" where
  "array_getkey [] = None"
| "array_getkey (ch # rest) =
     (if ch = CHR 0x0D \<or> ch = CHR 0x0A then Some (Enter, rest)
      else if ch = CHR 0x7F then Some (Backspace, rest)
      else if ch = CHR 0x1B then
        (case rest of
           [] \<Rightarrow> None
         | next_char # rest' \<Rightarrow>
             if next_char = CHR ''['' then
               (case rest' of
                  [] \<Rightarrow> None
                | direction # rest'' \<Rightarrow> Some (Arrow direction, rest''))
             else Some (Escape, rest'))
      else if py_isprintable ch then Some (Printable ch, rest)
      else Some (Ignored, rest))"

definition array_step ::
  "nat \<Rightarrow> bool \<Rightarrow> validator option \<Rightarrow> key \<Rightarrow> array_state \<Rightarrow> array_state step" where
  "array_step size' as_int validator k s =
     (case k of
        Enter \<Rightarrow>
          if current_value s \<noteq> [] then
            (case call_validator validator as_int False (current_value s) of
               Inl e \<Rightarrow> Raise e
             | Inr (is_valid, error) \<Rightarrow>
                 if is_valid then
                   (case format_number (current_value s) as_int False of
                      Inl e \<Rightarrow> Raise e
                    | Inr formatted \<Rightarrow>
                        if current_pos s < length (array s) then
                          Continue (s\<lparr>array := (array s)[current_pos s := formatted],
                                      current_value := [],
                                      current_pos :=
                                        (if current_pos s + 1 < size' then current_pos s + 1
                                         else current_pos s),
                                      error_message := [],
                                      validated := validated s @ [current_value s],
                                      committed := insert (current_pos s) (committed s)\<rparr>)
                        else Raise IndexError)
                 else Continue (s\<lparr>error_message := error,
                                   validated := validated s @ [current_value s]\<rparr>))
          else if current_pos s + 1 < size' then Continue (s\<lparr>current_pos := current_pos s + 1\<rparr>)
          else Continue s
      | Backspace \<Rightarrow>
          if current_value s \<noteq> [] then
            Continue (s\<lparr>current_value := butlast (current_value s), error_message := []\<rparr>)
          else Continue s
      | Arrow direction \<Rightarrow>
          if direction = CHR ''D'' \<and> 0 < current_pos s then
            Continue (s\<lparr>current_pos := current_pos s - 1, current_value := [],
                        error_message := []\<rparr>)
          else if direction = CHR ''C'' \<and> current_pos s + 1 < size' then
            Continue (s\<lparr>current_pos := current_pos s + 1, current_value := [],
                        error_message := []\<rparr>)
          else Continue s
      | Escape \<Rightarrow> Cancel
      | Printable ch \<Rightarrow>
          Continue (s\<lparr>current_value := current_value s @ [ch], error_message := []\<rparr>)
      | Ignored \<Rightarrow> Continue s)"

text \<open>The check at the end of the loop body: \<open>if all(cell != '' for cell in array): break\<close>.\<close>

definition array_iter ::
  "nat \<Rightarrow> bool \<Rightarrow> validator option \<Rightarrow> key \<Rightarrow> array_state \<Rightarrow> array_state step" where
  "array_iter size' as_int validator k s =
     (case array_step size' as_int validator k s of
        Continue s' \<Rightarrow> if list_all (\<lambda>cell. cell \<noteq> []) (array s') then Finish s' else Continue s'
      | r \<Rightarrow> r)"

text \<open>
  The \<open>while True\<close> loop. It is kept apart from \<open>input_array\<close> so that the state in
  which it ends stays visible: \<open>input_array\<close> returns the \<open>array\<close> of that state.
\<close>

function array_loop ::
  "nat \<Rightarrow> bool \<Rightarrow> validator option \<Rightarrow> array_state \<Rightarrow> string
     \<Rightarrow> (array_state, array_state option) run" where
  "array_loop size' as_int validator s keys =
     (case array_getkey keys of
        None \<Rightarrow> Waiting s
      | Some (k, rest) \<Rightarrow>
          (case array_iter size' as_int validator k s of
             Continue s' \<Rightarrow> array_loop size' as_int validator s' rest
           | Cancel \<Rightarrow> Returned None
           | Finish s' \<Rightarrow> Returned (Some s')
           | Raise e \<Rightarrow> Raised e))"
  by pat_completeness auto
termination
proof (relation "measure (\<lambda>(size', as_int, validator, s, keys). length keys)")
  show "wf (measure (\<lambda>(size' :: nat, as_int :: bool, validator :: validator option,
                        s :: array_state, keys :: string). length keys))"
    by simp
next
  fix size' :: nat and as_int :: bool and validator :: "validator option"
    and s s' :: array_state and keys rest :: string and k :: key and x :: "key \<times> string"
  assume "array_getkey keys = Some x" and "(k, rest) = x"
  then have "array_getkey keys = Some (k, rest)"
    by simp
  then have "length rest < length keys"
    by (cases keys) (auto split: if_splits list.splits)
  then show "((size', as_int, validator, s', rest), (size', as_int, validator, s, keys))
               \<in> measure (\<lambda>(size', as_int, validator, s, keys). length keys)"
    by simp
qed

definition array_init :: "nat \<Rightarrow> array_state" where
  "array_init size' =
     \<lparr>current_value = [], error_message = [], validated = [],
      array = replicate size' [], current_pos = 0, committed = {}\<rparr>"

definition input_array ::
  "nat \<Rightarrow> bool \<Rightarrow> validator option \<Rightarrow> string \<Rightarrow> (array_state, string list option) run" where
  "input_array size' as_int validator keys =
     (case array_loop size' as_int validator (array_init size') keys of
        Returned None \<Rightarrow> Returned None
      | Returned (Some s) \<Rightarrow> Returned (Some (array s))
      | Raised e \<Rightarrow> Raised e
      | Waiting s \<Rightarrow> Waiting s)"

definition input_float_array ::
  "nat \<Rightarrow> validator option \<Rightarrow> string \<Rightarrow> (array_state, pyfloat list option) run" where
  "input_float_array size' validator keys =
     (case input_array size' False validator keys of
        Returned None \<Rightarrow> Returned None
      | Returned (Some array') \<Rightarrow>
          (case map_exn py_float array' of Inl e \<Rightarrow> Raised e | Inr vals \<Rightarrow> Returned (Some vals))
      | Raised e \<Rightarrow> Raised e
      | Waiting s \<Rightarrow> Waiting s)"

definition input_int_array ::
  "nat \<Rightarrow> validator option \<Rightarrow> string \<Rightarrow> (array_state, int list option) run" where
  "input_int_array size' validator keys =
     (case input_array size' True validator keys of
        Returned None \<Rightarrow> Returned None
      | Returned (Some array') \<Rightarrow>
          (case map_exn py_int_float array' of
             Inl e \<Rightarrow> Raised e
           | Inr vals \<Rightarrow> Returned (Some vals))
      | Raised e \<Rightarrow> Raised e
      | Waiting s \<Rightarrow> Waiting s)"

subsection \<open>matrix\_input.py\<close>

record matrix_state = editor_state +
  matrix :: "string list list"
  current_row :: nat
  current_col :: nat
  committed_cells :: "(nat \<times> nat) set"

text \<open>
  \<open>committed_cells\<close> is a ghost variable (not in the source): the cells a commit has
  written. \<open>rows\<close> and \<open>cols\<close> are natural numbers (a negative one gives the same empty
  ranges as 0); \<open>current_row < rows - 1\<close> is written \<open>current_row + 1 < rows\<close>.
\<close>

fun matrix_getkey :: "string \<Rightarrow> (key \<times> string) option" where
  "matrix_getkey [] = None"
| "matrix_getkey (ch # rest) =
     (if (of_char ch :: nat) = 27 then
        (case rest of
           [] \<Rightarrow> None
         | next_char # rest' \<Rightarrow>
             if next_char = CHR ''['' then
               (case rest' of
                  [] \<Rightarrow> None
                | direction # rest'' \<Rightarrow> Some (Arrow direction, rest''))
             else Some (Escape, rest'))
      else if (of_char ch :: nat) = 13 then Some (Enter, rest)
      else if (of_char ch :: nat) = 127 then Some (Backspace, rest)
      else if py_isprintable ch then Some (Printable ch, rest)
      else Some (Ignored, rest))"

text \<open>
  The two scans visit the cells in the order of the nested \<open>for\<close> loops and return the
  first empty one. In \<open>find_prev_empty\<close> the \<open>break\<close> ends the last row at column \<open>col\<close>.
\<close>

definition find_next_empty ::
  "nat \<Rightarrow> nat \<Rightarrow> string list list \<Rightarrow> nat \<Rightarrow> nat \<Rightarrow> (nat \<times> nat) option" where
  "find_next_empty rows cols matrix' row col =
     (let next_col = col + 1
      in find (\<lambda>(i, j). matrix' ! i ! j = [])
           (concat (map (\<lambda>i. map (\<lambda>j. (i, j)) [(if i = row then next_col else 0) ..< cols])
                      [row ..< rows])))"

definition find_prev_empty ::
  "nat \<Rightarrow> nat \<Rightarrow> string list list \<Rightarrow> nat \<Rightarrow> nat \<Rightarrow> (nat \<times> nat) option" where
  "find_prev_empty rows cols matrix' row col =
     find (\<lambda>(i, j). matrix' ! i ! j = [])
       (concat (map (\<lambda>i. map (\<lambda>j. (i, j)) [0 ..< (if i = row then min col cols else cols)])
                  [0 ..< row + 1]))"

definition is_matrix_complete :: "string list list \<Rightarrow> bool" where
  "is_matrix_complete matrix' = list_all (\<lambda>row. list_all (\<lambda>cell. cell \<noteq> []) row) matrix'"

text \<open>The format test that opens the \<open>try\<close> block of the Enter branch.\<close>

definition test_value :: "bool \<Rightarrow> bool \<Rightarrow> string \<Rightarrow> exn + unit" where
  "test_value as_int as_symbol value =
     (if as_int then (case py_int_float value of Inl e \<Rightarrow> Inl e | Inr _ \<Rightarrow> Inr ())
      else if as_symbol then Inr ()
      else (case py_float value of Inl e \<Rightarrow> Inl e | Inr _ \<Rightarrow> Inr ()))"

text \<open>The body of the \<open>try\<close> block: \<open>Inl\<close> is an exception leaving it.\<close>

definition matrix_try ::
  "nat \<Rightarrow> nat \<Rightarrow> bool \<Rightarrow> bool \<Rightarrow> validator option \<Rightarrow> matrix_state
     \<Rightarrow> exn + matrix_state step" where
  "matrix_try rows cols as_int as_symbol validator s =
     (case test_value as_int as_symbol (current_value s) of
        Inl e \<Rightarrow> Inl e
      | Inr _ \<Rightarrow>
          (case call_validator validator as_int as_symbol (current_value s) of
             Inl e \<Rightarrow> Inl e
           | Inr (is_valid, error) \<Rightarrow>
               if is_valid then
                 (case format_number (current_value s) as_int as_symbol of
                    Inl e \<Rightarrow> Inl e
                  | Inr formatted_value \<Rightarrow>
                      if current_row s < length (matrix s)
                         \<and> current_col s < length (matrix s ! current_row s)
                      then
                        (let s' = s\<lparr>matrix :=
                                       (matrix s)[current_row s :=
                                          (matrix s ! current_row s)
                                            [current_col s := formatted_value]],
                                     current_value := [],
                                     error_message := [],
                                     validated := validated s @ [current_value s],
                                     committed_cells :=
                                       insert (current_row s, current_col s)
                                         (committed_cells s)\<rparr>
                         in case find_next_empty rows cols (matrix s')
                                   (current_row s) (current_col s) of
                              Some next_empty \<Rightarrow>
                                Inr (Continue (s'\<lparr>current_row := fst next_empty,
                                                  current_col := snd next_empty\<rparr>))
                            | None \<Rightarrow>
                                (case find_prev_empty rows cols (matrix s')
                                        (current_row s) (current_col s) of
                                   Some prev_empty \<Rightarrow>
                                     Inr (Continue (s'\<lparr>current_row := fst prev_empty,
                                                       current_col := snd prev_empty\<rparr>))
                                 | None \<Rightarrow> Inr (Finish s')))
                      else Inl IndexError)
               else Inr (Continue (s\<lparr>error_message := error,
                                        validated := validated s @ [current_value s]\<rparr>))))"

definition matrix_step ::
  "nat \<Rightarrow> nat \<Rightarrow> bool \<Rightarrow> bool \<Rightarrow> validator option \<Rightarrow> key \<Rightarrow> matrix_state
     \<Rightarrow> matrix_state step" where
  "matrix_step rows cols as_int as_symbol validator k s =
     (case k of
        Arrow direction \<Rightarrow>
          if direction = CHR ''A'' \<and> 0 < current_row s then
            Continue (s\<lparr>current_row := current_row s - 1, current_value := [],
                        error_message := []\<rparr>)
          else if direction = CHR ''B'' \<and> current_row s + 1 < rows then
            Continue (s\<lparr>current_row := current_row s + 1, current_value := [],
                        error_message := []\<rparr>)
          else if direction = CHR ''D'' \<and> 0 < current_col s then
            Continue (s\<lparr>current_col := current_col s - 1, current_value := [],
                        error_message := []\<rparr>)
          else if direction = CHR ''C'' \<and> current_col s + 1 < cols then
            Continue (s\<lparr>current_col := current_col s + 1, current_value := [],
                        error_message := []\<rparr>)
          else Continue s
      | Escape \<Rightarrow> Cancel
      | Enter \<Rightarrow>
          if current_value s \<noteq> [] then
            (case matrix_try rows cols as_int as_symbol validator s of
               Inl ValueError \<Rightarrow> Continue (s\<lparr>error_message := msg_number\<rparr>)
             | Inl e \<Rightarrow> Raise e
             | Inr r \<Rightarrow> r)
          else Continue s
      | Backspace \<Rightarrow>
          if current_value s \<noteq> [] then
            Continue (s\<lparr>current_value := butlast (current_value s), error_message := []\<rparr>)
          else Continue s
      | Printable ch \<Rightarrow>
          Continue (s\<lparr>current_value := current_value s @ [ch], error_message := []\<rparr>)
      | Ignored \<Rightarrow> Continue s)"

text \<open>The \<open>while True\<close> loop; \<open>input_matrix\<close> returns the \<open>matrix\<close> of the state it ends in.\<close>

function matrix_loop ::
  "nat \<Rightarrow> nat \<Rightarrow> bool \<Rightarrow> bool \<Rightarrow> validator option \<Rightarrow> matrix_state \<Rightarrow> string
     \<Rightarrow> (matrix_state, matrix_state option) run" where
  "matrix_loop rows cols as_int as_symbol validator s keys =
     (case matrix_getkey keys of
        None \<Rightarrow> Waiting s
      | Some (k, rest) \<Rightarrow>
          (case matrix_step rows cols as_int as_symbol validator k s of
             Continue s' \<Rightarrow> matrix_loop rows cols as_int as_symbol validator s' rest
           | Cancel \<Rightarrow> Returned None
           | Finish s' \<Rightarrow> Returned (Some s')
           | Raise e \<Rightarrow> Raised e))"
  by pat_completeness auto
termination
proof (relation "measure (\<lambda>(rows, cols, as_int, as_symbol, validator, s, keys). length keys)")
  show "wf (measure (\<lambda>(rows :: nat, cols :: nat, as_int :: bool, as_symbol :: bool,
                        validator :: validator option, s :: matrix_state, keys :: string).
                       length keys))"
    by simp
next
  fix rows cols :: nat and as_int as_symbol :: bool and validator :: "validator option"
    and s s' :: matrix_state and keys rest :: string and k :: key and x :: "key \<times> string"
  assume "matrix_getkey keys = Some x" and "(k, rest) = x"
  then have "matrix_getkey keys = Some (k, rest)"
    by simp
  then have "length rest < length keys"
    by (cases keys) (auto split: if_splits list.splits)
  then show "((rows, cols, as_int, as_symbol, validator, s', rest),
              (rows, cols, as_int, as_symbol, validator, s, keys))
               \<in> measure (\<lambda>(rows, cols, as_int, as_symbol, validator, s, keys). length keys)"
    by simp
qed

definition matrix_init :: "nat \<Rightarrow> nat \<Rightarrow> matrix_state" where
  "matrix_init rows cols =
     \<lparr>current_value = [], error_message = [], validated = [],
      matrix = replicate rows (replicate cols []), current_row = 0, current_col = 0,
      committed_cells = {}\<rparr>"

definition input_matrix ::
  "nat \<Rightarrow> nat \<Rightarrow> bool \<Rightarrow> bool \<Rightarrow> validator option \<Rightarrow> string
     \<Rightarrow> (matrix_state, string list list option) run" where
  "input_matrix rows cols as_int as_symbol validator keys =
     (case matrix_loop rows cols as_int as_symbol validator (matrix_init rows cols) keys of
        Returned None \<Rightarrow> Returned None
      | Returned (Some s) \<Rightarrow> Returned (Some (matrix s))
      | Raised e \<Rightarrow> Raised e
      | Waiting s \<Rightarrow> Waiting s)"

text \<open>
  The two numeric wrappers iterate over the result of \<open>input_matrix\<close> without a test:
  iterating over \<open>None\<close> raises \<open>TypeError\<close>.
\<close>

definition input_float_matrix ::
  "nat \<Rightarrow> nat \<Rightarrow> validator option \<Rightarrow> string \<Rightarrow> (matrix_state, pyfloat list list) run" where
  "input_float_matrix rows cols validator keys =
     (case input_matrix rows cols False False validator keys of
        Returned None \<Rightarrow> Raised TypeError
      | Returned (Some matrix') \<Rightarrow>
          (case map_exn (map_exn py_float) matrix' of
             Inl e \<Rightarrow> Raised e
           | Inr vals \<Rightarrow> Returned vals)
      | Raised e \<Rightarrow> Raised e
      | Waiting s \<Rightarrow> Waiting s)"

definition input_int_matrix ::
  "nat \<Rightarrow> nat \<Rightarrow> validator option \<Rightarrow> string \<Rightarrow> (matrix_state, int list list) run" where
  "input_int_matrix rows cols validator keys =
     (case input_matrix rows cols True False validator keys of
        Returned None \<Rightarrow> Raised TypeError
      | Returned (Some matrix') \<Rightarrow>
          (case map_exn (map_exn py_int_float) matrix' of
             Inl e \<Rightarrow> Raised e
           | Inr vals \<Rightarrow> Returned vals)
      | Raised e \<Rightarrow> Raised e
      | Waiting s \<Rightarrow> Waiting s)"

definition input_symbol_matrix ::
  "nat \<Rightarrow> nat \<Rightarrow> validator option \<Rightarrow> string
     \<Rightarrow> (matrix_state, string list list option) run" where
  "input_symbol_matrix rows cols validator keys =
     input_matrix rows cols False True validator keys"

subsection \<open>The navigation policy in the words of the specification\<close>

text \<open>
  The specification numbers the cells in row-major order: cell \<open>(i, j)\<close> has the number
  \<open>i * cols + j\<close>. \<open>scan_empty cols m lo hi\<close> is the first empty cell among the numbers
  \<open>lo, ..., hi - 1\<close>. After a commit at \<open>(row, col)\<close> the policy scans the cells after the
  committed one up to the end, then the cells from the first one up to the committed one.
\<close>

definition scan_empty :: "nat \<Rightarrow> string list list \<Rightarrow> nat \<Rightarrow> nat \<Rightarrow> (nat \<times> nat) option" where
  "scan_empty cols matrix' lo hi =
     map_option (\<lambda>k. (k div cols, k mod cols))
       (find (\<lambda>k. matrix' ! (k div cols) ! (k mod cols) = []) [lo ..< hi])"

definition commit_advance ::
  "nat \<Rightarrow> nat \<Rightarrow> string list list \<Rightarrow> nat \<Rightarrow> nat \<Rightarrow> (nat \<times> nat) option" where
  "commit_advance rows cols matrix' row col =
     (case scan_empty cols matrix' (row * cols + col + 1) (rows * cols) of
        Some p \<Rightarrow> Some p
      | None \<Rightarrow> scan_empty cols matrix' 0 (row * cols + col))"

subsection \<open>Invariants\<close>

text \<open>
  The grid keeps its shape, and a cell is non-empty exactly when a commit has written it.
\<close>

definition matrix_shape :: "nat \<Rightarrow> nat \<Rightarrow> string list list \<Rightarrow> bool" where
  "matrix_shape rows cols matrix' =
     (length matrix' = rows \<and> list_all (\<lambda>row. length row = cols) matrix')"

definition array_wf :: "nat \<Rightarrow> array_state \<Rightarrow> bool" where
  "array_wf size' s =
     (length (array s) = size'
      \<and> list_all (\<lambda>i. (array s ! i \<noteq> []) = (i \<in> committed s)) [0 ..< size'])"

definition matrix_wf :: "nat \<Rightarrow> nat \<Rightarrow> matrix_state \<Rightarrow> bool" where
  "matrix_wf rows cols s =
     (matrix_shape rows cols (matrix s)
      \<and> list_all (\<lambda>i. list_all (\<lambda>j. (matrix s ! i ! j \<noteq> []) = ((i, j) \<in> committed_cells s))
                        [0 ..< cols])
          [0 ..< rows])"

section \<open>Properties\<close>

text \<open>
  The recursion equations of the functions defined by \<open>function\<close> are applied by hand in
  the proofs below.
\<close>

declare bit_length.simps [simp del] ndigits.simps [simp del] lead_zeros.simps [simp del]
  strip_zeros.simps [simp del] int_digits.simps [simp del] array_loop.simps [simp del] matrix_loop.simps [simp del]

lemma py_float_error: "py_float value = Inl e \<Longrightarrow> e = ValueError"
  by (auto simp: py_float_def parse_decimal_def Let_def split: if_splits prod.splits option.splits)

lemma digit_char_not_point: "n < 10 \<Longrightarrow> digit_char n \<noteq> CHR ''.''"
proof -
  assume "n < 10"
  then have "nat n < length ''0123456789''"
    by simp
  then have "''0123456789'' ! nat n \<in> set ''0123456789''"
    by (rule nth_mem)
  then show ?thesis
    by (auto simp: digit_char_def)
qed

lemma int_digits_nonempty: "int_digits n \<noteq> []"
  by (subst int_digits.simps) simp

lemma int_digits_hd: "hd (int_digits n) \<noteq> CHR ''.''"
proof (induction n rule: int_digits.induct)
  case (1 n)
  show ?case
  proof (cases "n < 10")
    case True
    then show ?thesis
      by (subst int_digits.simps) (simp add: digit_char_not_point)
  next
    case False
    with 1 show ?thesis
      by (subst int_digits.simps) (simp add: int_digits_nonempty)
  qed
qed

lemma py_str_int_nonempty: "py_str_int i \<noteq> []"
  by (simp add: py_str_int_def int_digits_nonempty)

lemma format_repr_hd:
  assumes "ds \<noteq> []" and "hd ds \<noteq> CHR ''.''"
  shows "format_repr ds decpt \<noteq> [] \<and> hd (format_repr ds decpt) \<noteq> CHR ''.''"
proof -
  have t1: "take 1 ds = [hd ds]"
    using assms(1) by (cases ds) simp_all
  have tn: "0 < k \<Longrightarrow> take k ds \<noteq> [] \<and> hd (take k ds) = hd ds" for k
    using assms(1) by (cases ds; cases k) simp_all
  show ?thesis
    using assms t1 tn [of "nat decpt"] by (auto simp: format_repr_def hd_append)
qed

lemma py_repr_hd: "py_repr num \<noteq> [] \<and> hd (py_repr num) \<noteq> CHR ''.''"
proof (cases num)
  case (Finite neg m e)
  then show ?thesis
    using format_repr_hd [OF int_digits_nonempty int_digits_hd]
    by (simp add: Let_def)
qed simp_all

lemma rstrip_split: "\<exists>t. s = rstrip c s @ t \<and> set t \<subseteq> {c}"
proof -
  let ?t = "rev (takeWhile (\<lambda>x. x = c) (rev s))"
  have "rstrip c s @ ?t = rev (takeWhile (\<lambda>x. x = c) (rev s) @ dropWhile (\<lambda>x. x = c) (rev s))"
    by (simp only: rstrip_def rev_append)
  also have "\<dots> = s"
    by (simp only: takeWhile_dropWhile_id rev_rev_ident)
  finally have "s = rstrip c s @ ?t"
    by simp
  moreover have "set ?t \<subseteq> {c}"
    by (auto dest: set_takeWhileD)
  ultimately show ?thesis
    by blast
qed

lemma rstrip_point_zero_nonempty:
  assumes "s \<noteq> []" and "hd s \<noteq> CHR ''.''" and "CHR ''.'' \<in> set s"
  shows "rstrip (CHR ''.'') (rstrip (CHR ''0'') s) \<noteq> []"
proof
  assume empty: "rstrip (CHR ''.'') (rstrip (CHR ''0'') s) = []"
  obtain t where t: "s = rstrip (CHR ''0'') s @ t" "set t \<subseteq> {CHR ''0''}"
    using rstrip_split by blast
  obtain t' where t': "rstrip (CHR ''0'') s = rstrip (CHR ''.'') (rstrip (CHR ''0'') s) @ t'"
      "set t' \<subseteq> {CHR ''.''}"
    using rstrip_split by blast
  have "CHR ''.'' \<notin> set t"
    using t(2) by auto
  with assms(3) t(1) have "CHR ''.'' \<in> set (rstrip (CHR ''0'') s)"
    by (metis Un_iff set_append)
  then have ne: "rstrip (CHR ''0'') s \<noteq> []"
    by auto
  with t(1) have "hd (rstrip (CHR ''0'') s) = hd s"
    by (metis hd_append2)
  moreover from empty t'(1) ne have "hd (rstrip (CHR ''0'') s) \<in> set t'"
    by (metis append_Nil hd_in_set)
  ultimately show False
    using assms(2) t'(2) by auto
qed

lemma format_number_nonempty:
  assumes "value \<noteq> []" and "format_number value as_int as_symbol = Inr formatted"
  shows "formatted \<noteq> []"
  using assms py_repr_hd rstrip_point_zero_nonempty
  by (auto simp: format_number_def py_str_int_nonempty Let_def
           split: if_splits sum.splits exn.splits)

subsection \<open>Formatting\<close>

text \<open>
  C7. Real-number formatting is meant to be idempotent: formatting a formatted text does
  not change it. The code strips the trailing zeros of the whole printed text, also of
  an exponent: \<open>1.5e20\<close> is printed \<open>1.5e+20\<close> and stripped to \<open>1.5e+2\<close>, and formatting
  that text gives \<open>150\<close>.
\<close>

theorem format_number_real_twice:
  "py_float ''1.5e20'' = Inr (Finite False 4577636718750000 15)
   \<and> format_number ''1.5e20'' False False = Inr ''1.5e+2''
   \<and> format_number ''1.5e+2'' False False = Inr ''150''"
  by code_simp

subsection \<open>Entry points\<close>

text \<open>
  C1. Every entry point is meant to return \<open>None\<close> when the user cancels. The array
  wrappers do; \<open>input_float_matrix\<close> and \<open>input_int_matrix\<close> iterate over the \<open>None\<close> that
  \<open>input_matrix\<close> returns and raise \<open>TypeError\<close>. The keys are Escape and then a
  character other than \<open>[\<close>, on a 1 x 1 grid.
\<close>

theorem matrix_wrappers_cancel:
  "input_matrix 1 1 False False None [CHR 0x1B, CHR ''x''] = Returned None
   \<and> input_float_matrix 1 1 None [CHR 0x1B, CHR ''x''] = Raised TypeError
   \<and> input_int_matrix 1 1 None [CHR 0x1B, CHR ''x''] = Raised TypeError
   \<and> input_float_array 1 None [CHR 0x1B, CHR ''x''] = Returned None"
  by code_simp

subsection \<open>Validation\<close>

text \<open>
  In the matrix editor a step calls the validator at most once, on the buffer, and only
  after the format test of the buffer has passed.
\<close>

lemma matrix_validator_after_test:
  assumes "matrix_step rows cols as_int as_symbol validator k s = Continue s'
           \<or> matrix_step rows cols as_int as_symbol validator k s = Finish s'"
  shows "validated s' = validated s
         \<or> (validated s' = validated s @ [current_value s]
            \<and> test_value as_int as_symbol (current_value s) = Inr ())"
proof (cases k)
  case Enter
  with assms show ?thesis
    by (auto simp: matrix_step_def matrix_try_def Let_def
             split: if_splits sum.splits prod.splits option.splits exn.splits)
qed (use assms in \<open>auto simp: matrix_step_def split: if_splits\<close>)

text \<open>
  C2. A caller's validator is meant to see only text that parses as a number. The matrix
  editor tests the format first and rejects \<open>abc\<close> without calling the validator; the
  array editor calls the validator on \<open>abc\<close>, and a validator that accepts it makes the
  editor commit the raw text, on which \<open>input_float_array\<close> then raises \<open>ValueError\<close>.
\<close>

theorem array_validator_on_unparsed_text:
  "py_float ''abc'' = Inl ValueError
   \<and> (case array_step 1 False (Some (\<lambda>v. (length v = 3, ''three characters''))) Enter
              ((array_init 1)\<lparr>current_value := ''abc''\<rparr>) of
         Continue s' \<Rightarrow> validated s' = [''abc''] \<and> array s' = [''abc'']
       | _ \<Rightarrow> False)
   \<and> (case matrix_step 1 1 False False (Some (\<lambda>v. (length v = 3, ''three characters''))) Enter
              ((matrix_init 1 1)\<lparr>current_value := ''abc''\<rparr>) of
         Continue s' \<Rightarrow> validated s' = [] \<and> matrix s' = [[[]]] \<and> error_message s' = msg_number
       | _ \<Rightarrow> False)
   \<and> input_float_array 1 (Some (\<lambda>v. (length v = 3, ''three characters'')))
         (''abc'' @ [CHR 0x0D]) = Raised ValueError"
  by code_simp

text \<open>
  C8, as stated: the default validator accepts a text exactly when it parses as a real
  number. In integer mode \<open>nan\<close> parses as a real number and is rejected.
\<close>

theorem default_validator_int_nan:
  "py_float ''nan'' = Inr NaN
   \<and> default_validator True False ''nan'' = Inr (False, msg_number)"
  by code_simp

text \<open>
  C8, amended. In real mode the default validator accepts a text exactly when it parses
  as a real number. In integer mode it accepts a text that parses to a finite number, and
  rejects a text that does not parse or parses to a NaN. Every rejection carries the
  message asking for a valid number. (Nothing is said of a text that parses to an
  infinity in integer mode.)
\<close>

theorem default_validator_verdict:
  "default_validator False False value =
     (case py_float value of Inl e \<Rightarrow> Inr (False, msg_number) | Inr num \<Rightarrow> Inr (True, []))
   \<and> (case py_float value of
         Inl e \<Rightarrow> default_validator True False value = Inr (False, msg_number)
       | Inr NaN \<Rightarrow> default_validator True False value = Inr (False, msg_number)
       | Inr (Finite neg m e) \<Rightarrow> default_validator True False value = Inr (True, [])
       | Inr (Infinity neg) \<Rightarrow> True)"
  using py_float_error [of "value"]
  by (auto simp: default_validator_def py_int_float_def Let_def
           split: sum.splits exn.splits pyfloat.splits)

subsection \<open>Single iterations of the loops\<close>

text \<open>
  An iteration of the array loop is \<open>array_iter\<close>: the step and then the completion
  check. The loop only starts an iteration while some cell is empty, which is the
  hypothesis \<open>\<not> list_all (\<lambda>cell. cell \<noteq> []) (array s)\<close> below. An iteration of the matrix
  loop is \<open>matrix_step\<close>.
\<close>

text \<open>
  C3, as stated: in the matrix editor, confirming an empty buffer always moves the cursor
  one step forward unless the grid is complete. On an empty 2 x 2 grid Enter leaves the
  cursor at \<open>(0, 0)\<close>.
\<close>

theorem empty_confirm_matrix_stays:
  "(case input_matrix 2 2 False False None [CHR 0x0D] of
      Waiting s \<Rightarrow>
        current_row s = 0 \<and> current_col s = 0 \<and> matrix s = [[[], []], [[], []]]
        \<and> \<not> is_matrix_complete (matrix s)
    | _ \<Rightarrow> False)"
  by code_simp

text \<open>
  C3, amended. Confirming with an empty buffer commits nothing, validates nothing and
  leaves every cell and the error message as they are. In the array editor the cursor
  moves one step forward when it is not at the last index, and stays otherwise; in the
  matrix editor nothing changes, the cursor included.
\<close>

theorem empty_confirm:
  "(current_value s = [] \<and> \<not> list_all (\<lambda>cell. cell \<noteq> []) (array s) \<longrightarrow>
      (case array_iter size' as_int validator Enter s of
         Continue s' \<Rightarrow>
           array s' = array s \<and> committed s' = committed s \<and> validated s' = validated s
           \<and> error_message s' = error_message s \<and> current_value s' = []
           \<and> current_pos s' =
               (if current_pos s + 1 < size' then current_pos s + 1 else current_pos s)
       | _ \<Rightarrow> False))
   \<and> (current_value t = [] \<longrightarrow>
        matrix_step rows cols as_int' as_symbol validator' Enter t = Continue t)"
  by (simp add: array_iter_def array_step_def matrix_step_def)

theorem empty_confirm_witness:
  "current_value (array_init 2) = []
   \<and> \<not> list_all (\<lambda>cell. cell \<noteq> []) (array (array_init 2))
   \<and> (case array_iter 2 False None Enter (array_init 2) of
         Continue s' \<Rightarrow>
           array s' = [[], []] \<and> committed s' = {} \<and> validated s' = []
           \<and> error_message s' = [] \<and> current_value s' = [] \<and> current_pos s' = 1
       | _ \<Rightarrow> False)
   \<and> current_value (matrix_init 2 2) = []
   \<and> matrix_step 2 2 False False None Enter (matrix_init 2 2) = Continue (matrix_init 2 2)"
proof -
  have a: "current_value (array_init 2) = []
           \<and> \<not> list_all (\<lambda>cell. cell \<noteq> []) (array (array_init 2))"
    by (simp add: array_init_def numeral_2_eq_2)
  have m: "current_value (matrix_init 2 2) = []"
    by (simp add: matrix_init_def)
  show ?thesis
    using empty_confirm [of "array_init 2" 2 False None "matrix_init 2 2" 2 2 False False None]
      a m
    by (simp add: array_init_def numeral_2_eq_2 split: step.splits)
qed

text \<open>
  C5. A confirm of a non-empty buffer that validation rejects changes nothing but the
  error message, which becomes the rejection message; the loop goes on. In the array
  editor the rejection is the validator's; in the matrix editor it is the format test
  raising \<open>ValueError\<close> (the message is then the one asking for a valid number) or the
  validator's.
\<close>

theorem rejected_confirm:
  "(current_value s \<noteq> [] \<and> \<not> list_all (\<lambda>cell. cell \<noteq> []) (array s)
      \<and> call_validator validator as_int False (current_value s) = Inr (False, msg)
     \<longrightarrow> (case array_iter size' as_int validator Enter s of
            Continue s' \<Rightarrow>
              array s' = array s \<and> committed s' = committed s
              \<and> current_pos s' = current_pos s \<and> current_value s' = current_value s
              \<and> error_message s' = msg
          | _ \<Rightarrow> False))
   \<and> (current_value t \<noteq> []
      \<and> (test_value as_int' as_symbol (current_value t) = Inl ValueError \<and> msg' = msg_number
         \<or> test_value as_int' as_symbol (current_value t) = Inr ()
           \<and> call_validator validator' as_int' as_symbol (current_value t) = Inr (False, msg'))
     \<longrightarrow> (case matrix_step rows cols as_int' as_symbol validator' Enter t of
            Continue t' \<Rightarrow>
              matrix t' = matrix t \<and> committed_cells t' = committed_cells t
              \<and> current_row t' = current_row t \<and> current_col t' = current_col t
              \<and> current_value t' = current_value t \<and> error_message t' = msg'
          | _ \<Rightarrow> False))"
  by (auto simp: array_iter_def array_step_def matrix_step_def matrix_try_def)

theorem rejected_confirm_witness:
  "current_value ((array_init 1)\<lparr>current_value := ''1x''\<rparr>) \<noteq> []
   \<and> \<not> list_all (\<lambda>cell. cell \<noteq> []) (array ((array_init 1)\<lparr>current_value := ''1x''\<rparr>))
   \<and> call_validator None True False ''1x'' = Inr (False, msg_number)
   \<and> (case array_iter 1 True None Enter ((array_init 1)\<lparr>current_value := ''1x''\<rparr>) of
         Continue s' \<Rightarrow>
           array s' = [[]] \<and> committed s' = {} \<and> current_pos s' = 0
           \<and> current_value s' = ''1x'' \<and> error_message s' = msg_number
       | _ \<Rightarrow> False)
   \<and> test_value False False ''7'' = Inr ()
   \<and> call_validator (Some (\<lambda>v. (False, ''no''))) False False ''7'' = Inr (False, ''no'')
   \<and> (case matrix_step 1 1 False False (Some (\<lambda>v. (False, ''no''))) Enter
               ((matrix_init 1 1)\<lparr>current_value := ''7''\<rparr>) of
         Continue t' \<Rightarrow>
           matrix t' = [[[]]] \<and> committed_cells t' = {}
           \<and> current_row t' = 0 \<and> current_col t' = 0
           \<and> current_value t' = ''7'' \<and> error_message t' = ''no''
       | _ \<Rightarrow> False)"
proof -
  have a: "call_validator None True False ''1x'' = Inr (False, msg_number)"
    by code_simp
  have b: "test_value False False ''7'' = Inr ()"
    by code_simp
  have c: "call_validator (Some (\<lambda>v. (False, ''no''))) False False ''7'' = Inr (False, ''no'')"
    by (simp add: call_validator_def)
  show ?thesis
    using rejected_confirm [of "(array_init 1)\<lparr>current_value := ''1x''\<rparr>" None True msg_number 1
        "(matrix_init 1 1)\<lparr>current_value := ''7''\<rparr>" False False "''no''"
        "Some (\<lambda>v. (False, ''no''))" 1 1]
      a b c
    by (simp add: array_init_def matrix_init_def split: step.splits)
qed

text \<open>
  C6, as stated: every arrow key clears the edit buffer and the error message, also when
  the cursor is at the edge. After \<open>a\<close>, Enter (rejected) and an arrow key that would
  leave the grid, the buffer and the error message are still there.
\<close>

theorem arrow_at_edge_keeps_buffer:
  "(case input_array 2 False None (''a'' @ [CHR 0x0D, CHR 0x1B, CHR ''['', CHR ''D'']) of
      Waiting s \<Rightarrow> current_pos s = 0 \<and> current_value s = ''a'' \<and> error_message s = msg_number
    | _ \<Rightarrow> False)
   \<and> (case input_matrix 2 2 False False None (''a'' @ [CHR 0x0D, CHR 0x1B, CHR ''['', CHR ''A'']) of
      Waiting s \<Rightarrow>
        current_row s = 0 \<and> current_col s = 0 \<and> current_value s = ''a''
        \<and> error_message s = msg_number
    | _ \<Rightarrow> False)"
  by code_simp

lemma array_arrow:
  "\<not> list_all (\<lambda>cell. cell \<noteq> []) (array s) \<Longrightarrow>
   (case array_iter size' as_int validator (Arrow direction) s of
      Continue s' \<Rightarrow>
        array s' = array s \<and> committed s' = committed s \<and> validated s' = validated s
        \<and> current_pos s' =
            (if direction = CHR ''D'' \<and> 0 < current_pos s then current_pos s - 1
             else if direction = CHR ''C'' \<and> current_pos s + 1 < size' then current_pos s + 1
             else current_pos s)
        \<and> (if current_pos s' = current_pos s then s' = s
            else current_value s' = [] \<and> error_message s' = [])
    | _ \<Rightarrow> False)"
  by (cases "current_pos s") (simp_all add: array_iter_def array_step_def)

lemma matrix_arrow:
  "(case matrix_step rows cols as_int as_symbol validator (Arrow direction) t of
      Continue t' \<Rightarrow>
        matrix t' = matrix t \<and> committed_cells t' = committed_cells t
        \<and> validated t' = validated t
        \<and> current_row t' =
            (if direction = CHR ''A'' \<and> 0 < current_row t then current_row t - 1
             else if direction = CHR ''B'' \<and> current_row t + 1 < rows then current_row t + 1
             else current_row t)
        \<and> current_col t' =
            (if direction = CHR ''D'' \<and> 0 < current_col t then current_col t - 1
             else if direction = CHR ''C'' \<and> current_col t + 1 < cols then current_col t + 1
             else current_col t)
        \<and> (if current_row t' = current_row t \<and> current_col t' = current_col t then t' = t
            else current_value t' = [] \<and> error_message t' = [])
    | _ \<Rightarrow> False)"
  by (cases "current_row t"; cases "current_col t") (simp_all add: matrix_step_def)

text \<open>
  C6, amended. An arrow key moves the cursor one step in its direction when the target
  is inside the grid, and then clears the edit buffer and the error message; at an edge
  (and for any other character after the escape sequence) the state stays as it is,
  edit buffer and error message included. No arrow key changes a cell.
\<close>

theorem arrow_key:
  "(\<not> list_all (\<lambda>cell. cell \<noteq> []) (array s) \<longrightarrow>
    (case array_iter size' as_int validator (Arrow direction) s of
      Continue s' \<Rightarrow>
        array s' = array s \<and> committed s' = committed s \<and> validated s' = validated s
        \<and> current_pos s' =
            (if direction = CHR ''D'' \<and> 0 < current_pos s then current_pos s - 1
             else if direction = CHR ''C'' \<and> current_pos s + 1 < size' then current_pos s + 1
             else current_pos s)
        \<and> (if current_pos s' = current_pos s then s' = s
            else current_value s' = [] \<and> error_message s' = [])
    | _ \<Rightarrow> False))
   \<and> (case matrix_step rows cols as_int' as_symbol validator' (Arrow direction') t of
      Continue t' \<Rightarrow>
        matrix t' = matrix t \<and> committed_cells t' = committed_cells t
        \<and> validated t' = validated t
        \<and> current_row t' =
            (if direction' = CHR ''A'' \<and> 0 < current_row t then current_row t - 1
             else if direction' = CHR ''B'' \<and> current_row t + 1 < rows then current_row t + 1
             else current_row t)
        \<and> current_col t' =
            (if direction' = CHR ''D'' \<and> 0 < current_col t then current_col t - 1
             else if direction' = CHR ''C'' \<and> current_col t + 1 < cols then current_col t + 1
             else current_col t)
        \<and> (if current_row t' = current_row t \<and> current_col t' = current_col t then t' = t
            else current_value t' = [] \<and> error_message t' = [])
    | _ \<Rightarrow> False)"
  using array_arrow matrix_arrow by blast

theorem arrow_key_witness:
  "\<not> list_all (\<lambda>cell. cell \<noteq> []) (array ((array_init 3)\<lparr>current_value := ''4''\<rparr>))
   \<and> (case array_iter 3 False None (Arrow (CHR ''C'')) ((array_init 3)\<lparr>current_value := ''4''\<rparr>) of
         Continue s' \<Rightarrow>
           array s' = [[], [], []] \<and> current_pos s' = 1 \<and> current_value s' = []
           \<and> error_message s' = []
       | _ \<Rightarrow> False)
   \<and> (case matrix_step 2 2 False False None (Arrow (CHR ''B''))
               ((matrix_init 2 2)\<lparr>current_value := ''4''\<rparr>) of
         Continue t' \<Rightarrow>
           matrix t' = [[[], []], [[], []]] \<and> current_row t' = 1 \<and> current_col t' = 0
           \<and> current_value t' = [] \<and> error_message t' = []
       | _ \<Rightarrow> False)"
proof -
  have a: "\<not> list_all (\<lambda>cell. cell \<noteq> []) (array ((array_init 3)\<lparr>current_value := ''4''\<rparr>))"
    by (simp add: array_init_def numeral_3_eq_3)
  show ?thesis
    using arrow_key [where s = "(array_init 3)\<lparr>current_value := ''4''\<rparr>" and size' = 3
        and as_int = False and validator = None and direction = "CHR ''C''"
        and rows = 2 and cols = 2 and as_int' = False and as_symbol = False
        and validator' = None and direction' = "CHR ''B''"
        and t = "(matrix_init 2 2)\<lparr>current_value := ''4''\<rparr>"] a
    by (simp add: array_init_def matrix_init_def numeral_2_eq_2 numeral_3_eq_3 split: step.splits)
qed

subsection \<open>The commit advance of the matrix editor\<close>

lemma find_map_option: "find P (map f xs) = map_option f (find (\<lambda>x. P (f x)) xs)"
  by (induction xs) simp_all

lemma upt_join: "a \<le> b \<Longrightarrow> b \<le> c \<Longrightarrow> [a ..< b] @ [b ..< c] = [a ..< c]"
proof -
  assume ab: "a \<le> b" and bc: "b \<le> c"
  have "[a ..< b + (c - b)] = [a ..< b] @ [b ..< b + (c - b)]"
    using ab by (rule upt_add_eq_append)
  with bc show ?thesis
    by simp
qed

lemma row_segment:
  assumes "a \<le> b" and "b \<le> cols"
  shows "map (\<lambda>k. (k div cols, k mod cols)) [i * cols + a ..< i * cols + b] = map (Pair i) [a ..< b]"
proof (rule nth_equalityI)
  show "length (map (\<lambda>k. (k div cols, k mod cols)) [i * cols + a ..< i * cols + b])
          = length (map (Pair i) [a ..< b])"
    by simp
next
  fix n
  assume "n < length (map (\<lambda>k. (k div cols, k mod cols)) [i * cols + a ..< i * cols + b])"
  then have n: "n < b - a"
    by simp
  with assms have small: "a + n < cols"
    by simp
  then have "(i * cols + (a + n)) div cols = i" and "(i * cols + (a + n)) mod cols = a + n"
    by simp_all
  with n show "map (\<lambda>k. (k div cols, k mod cols)) [i * cols + a ..< i * cols + b] ! n
                 = map (Pair i) [a ..< b] ! n"
    by (simp add: add.assoc)
qed

lemma rows_segment:
  "i \<le> rows \<Longrightarrow>
     map (\<lambda>k. (k div cols, k mod cols)) [i * cols ..< rows * cols]
       = concat (map (\<lambda>i'. map (Pair i') [0 ..< cols]) [i ..< rows])"
proof (induction rows)
  case 0
  then show ?case by simp
next
  case (Suc rows)
  show ?case
  proof (cases "i = Suc rows")
    case True
    then show ?thesis by simp
  next
    case False
    with Suc.prems have le: "i \<le> rows"
      by simp
    then have "i * cols \<le> rows * cols"
      by simp
    then have "[i * cols ..< rows * cols] @ [rows * cols ..< rows * cols + cols]
                 = [i * cols ..< rows * cols + cols]"
      by (rule upt_join) simp
    moreover have "Suc rows * cols = rows * cols + cols"
      by simp
    ultimately have split: "[i * cols ..< Suc rows * cols]
                        = [i * cols ..< rows * cols] @ [rows * cols ..< rows * cols + cols]"
      by (simp only:)
    have last_row: "map (\<lambda>k. (k div cols, k mod cols)) [rows * cols ..< rows * cols + cols]
                      = map (Pair rows) [0 ..< cols]"
      using row_segment [of 0 cols cols rows] by simp
    have "[i ..< Suc rows] = [i ..< rows] @ [rows]"
      using le by simp
    then show ?thesis
      using Suc.IH [OF le] by (simp only: split last_row map_append concat_append concat.simps list.map append_Nil2)
  qed
qed

lemma find_next_empty_scan:
  assumes "row < rows" and "col < cols"
  shows "find_next_empty rows cols m row col = scan_empty cols m (row * cols + col + 1) (rows * cols)"
proof -
  let ?idx = "\<lambda>k. (k div cols, k mod cols)"
  have rest: "map (\<lambda>i. map (Pair i) [(if i = row then col + 1 else 0) ..< cols]) [Suc row ..< rows]
                = map (\<lambda>i. map (Pair i) [0 ..< cols]) [Suc row ..< rows]"
    by (rule map_cong) auto
  have "concat (map (\<lambda>i. map (Pair i) [(if i = row then col + 1 else 0) ..< cols]) [row ..< rows])
          = map (Pair row) [col + 1 ..< cols]
            @ concat (map (\<lambda>i. map (Pair i) [0 ..< cols]) [Suc row ..< rows])"
    using assms(1) by (simp add: upt_conv_Cons rest)
  also have "\<dots> = map ?idx [row * cols + (col + 1) ..< row * cols + cols]
                    @ map ?idx [Suc row * cols ..< rows * cols]"
    using row_segment [of "col + 1" cols cols row] rows_segment [of "Suc row" rows cols] assms
    by simp
  also have "\<dots> = map ?idx ([row * cols + (col + 1) ..< Suc row * cols]
                              @ [Suc row * cols ..< rows * cols])"
    by (simp add: add.commute)
  also have "[row * cols + (col + 1) ..< Suc row * cols] @ [Suc row * cols ..< rows * cols]
               = [row * cols + (col + 1) ..< rows * cols]"
  proof (rule upt_join)
    show "row * cols + (col + 1) \<le> Suc row * cols"
      using assms(2) by simp
    show "Suc row * cols \<le> rows * cols"
      using assms(1) by (simp add: Suc_leI del: mult_Suc)
  qed
  finally have list_eq:
    "concat (map (\<lambda>i. map (Pair i) [(if i = row then col + 1 else 0) ..< cols]) [row ..< rows])
       = map ?idx [row * cols + (col + 1) ..< rows * cols]" .
  have "find_next_empty rows cols m row col
          = map_option ?idx (find (\<lambda>k. m ! (k div cols) ! (k mod cols) = [])
                                [row * cols + (col + 1) ..< rows * cols])"
    by (simp only: find_next_empty_def Let_def list_eq find_map_option split_conv)
  then show ?thesis
    by (simp add: scan_empty_def add.assoc)
qed

lemma find_prev_empty_scan:
  assumes "col < cols"
  shows "find_prev_empty rows cols m row col = scan_empty cols m 0 (row * cols + col)"
proof -
  let ?idx = "\<lambda>k. (k div cols, k mod cols)"
  have before: "map (\<lambda>i. map (Pair i) [0 ..< (if i = row then min col cols else cols)]) [0 ..< row]
                  = map (\<lambda>i. map (Pair i) [0 ..< cols]) [0 ..< row]"
    by (rule map_cong) auto
  have "concat (map (\<lambda>i. map (Pair i) [0 ..< (if i = row then min col cols else cols)])
                  [0 ..< row + 1])
          = concat (map (\<lambda>i. map (Pair i) [0 ..< cols]) [0 ..< row]) @ map (Pair row) [0 ..< col]"
    using assms by (simp add: before min_def)
  also have "\<dots> = map ?idx [0 ..< row * cols] @ map ?idx [row * cols ..< row * cols + col]"
    using rows_segment [of 0 row cols] row_segment [of 0 col cols row] assms by simp
  also have "\<dots> = map ?idx [0 ..< row * cols + col]"
  proof -
    have "[0 ..< row * cols] @ [row * cols ..< row * cols + col] = [0 ..< row * cols + col]"
      by (rule upt_join) simp_all
    then have "map ?idx ([0 ..< row * cols] @ [row * cols ..< row * cols + col])
                 = map ?idx [0 ..< row * cols + col]"
      by (rule arg_cong)
    then show ?thesis
      by simp
  qed
  finally have list_eq:
    "concat (map (\<lambda>i. map (Pair i) [0 ..< (if i = row then min col cols else cols)])
               [0 ..< row + 1])
       = map ?idx [0 ..< row * cols + col]" .
  show ?thesis
    by (simp only: find_prev_empty_def scan_empty_def list_eq find_map_option split_conv)
qed


lemma cells_by_index:
  fixes rows cols :: nat
  assumes "0 < cols"
  shows "(\<forall>k < rows * cols. P (k div cols) (k mod cols)) = (\<forall>i < rows. \<forall>j < cols. P i j)"
proof (intro iffI allI impI)
  fix i j
  assume all: "\<forall>k < rows * cols. P (k div cols) (k mod cols)" and i: "i < rows" and j: "j < cols"
  have "i * cols + j < Suc i * cols"
    using j by simp
  also have "\<dots> \<le> rows * cols"
    using i by (simp add: Suc_leI del: mult_Suc)
  finally have "P ((i * cols + j) div cols) ((i * cols + j) mod cols)"
    using all by blast
  with j show "P i j"
    by simp
next
  fix k
  assume all: "\<forall>i < rows. \<forall>j < cols. P i j" and k: "k < rows * cols"
  have "k div cols < rows"
    using k assms by (simp add: less_mult_imp_div_less)
  moreover have "k mod cols < cols"
    using assms by simp
  ultimately show "P (k div cols) (k mod cols)"
    using all by blast
qed

lemma commit_advance_None:
  assumes "row < rows" and "col < cols" and "m ! row ! col \<noteq> []"
  shows "(commit_advance rows cols m row col = None)
           = (\<forall>k < rows * cols. m ! (k div cols) ! (k mod cols) \<noteq> [])"
proof -
  have at: "(row * cols + col) div cols = row" "(row * cols + col) mod cols = col"
    using assms(2) by simp_all
  have none: "(scan_empty cols m lo hi = None)
                = (\<forall>k. lo \<le> k \<and> k < hi \<longrightarrow> m ! (k div cols) ! (k mod cols) \<noteq> [])" for lo hi
    by (auto simp: scan_empty_def find_None_iff)
  have "(commit_advance rows cols m row col = None)
          = (scan_empty cols m (row * cols + col + 1) (rows * cols) = None
             \<and> scan_empty cols m 0 (row * cols + col) = None)"
    by (simp add: commit_advance_def split: option.splits)
  also have "\<dots> = ((\<forall>k. row * cols + col + 1 \<le> k \<and> k < rows * cols
                   \<longrightarrow> m ! (k div cols) ! (k mod cols) \<noteq> [])
             \<and> (\<forall>k < row * cols + col. m ! (k div cols) ! (k mod cols) \<noteq> []))"
    by (simp only: none) simp
  also have "\<dots> = (\<forall>k < rows * cols. m ! (k div cols) ! (k mod cols) \<noteq> [])"
  proof (intro iffI allI impI)
    fix k
    assume h: "(\<forall>k. row * cols + col + 1 \<le> k \<and> k < rows * cols
                   \<longrightarrow> m ! (k div cols) ! (k mod cols) \<noteq> [])
               \<and> (\<forall>k < row * cols + col. m ! (k div cols) ! (k mod cols) \<noteq> [])"
      and k: "k < rows * cols"
    consider "k < row * cols + col" | "k = row * cols + col" | "row * cols + col + 1 \<le> k"
      by linarith
    then show "m ! (k div cols) ! (k mod cols) \<noteq> []"
    proof cases
      case 1
      with h show ?thesis by blast
    next
      case 2
      with at assms(3) show ?thesis by simp
    next
      case 3
      with h k show ?thesis by blast
    qed
  next
    assume all: "\<forall>k < rows * cols. m ! (k div cols) ! (k mod cols) \<noteq> []"
    have "row * cols + col < Suc row * cols"
      using assms(2) by simp
    also have "\<dots> \<le> rows * cols"
      using assms(1) by (simp add: Suc_leI del: mult_Suc)
    finally have "row * cols + col < rows * cols" .
    with all show "(\<forall>k. row * cols + col + 1 \<le> k \<and> k < rows * cols
                        \<longrightarrow> m ! (k div cols) ! (k mod cols) \<noteq> [])
                   \<and> (\<forall>k < row * cols + col. m ! (k div cols) ! (k mod cols) \<noteq> [])"
      by auto
  qed
  finally show ?thesis .
qed

lemma is_matrix_complete_cells:
  assumes "matrix_shape rows cols m"
  shows "is_matrix_complete m = (\<forall>i < rows. \<forall>j < cols. m ! i ! j \<noteq> [])"
  using assms by (auto simp: is_matrix_complete_def matrix_shape_def list_all_length)

lemma matrix_shape_update:
  assumes "matrix_shape rows cols m"
  shows "matrix_shape rows cols (m[r := (m ! r)[c := v]])"
proof -
  have "length ((m[r := (m ! r)[c := v]]) ! n) = cols" if "n < length m" "length (m ! n) = cols" for n
    using that by (cases "n = r") simp_all
  with assms show ?thesis
    by (simp add: matrix_shape_def list_all_length)
qed

lemma test_value_format_number:
  assumes "test_value as_int as_symbol value = Inr ()"
  shows "\<exists>formatted. format_number value as_int as_symbol = Inr formatted"
  using assms
  by (auto simp: test_value_def format_number_def Let_def split: if_splits sum.splits)

text \<open>
  C4. After a successful commit (the format test passes and the validator accepts) the
  matrix editor moves the cursor to the first empty cell after the committed one in
  row-major order, else to the first empty cell before it, and ends the session when
  there is neither: that is, exactly when no cell of the grid is empty.
\<close>

theorem commit_advance_policy:
  assumes shape: "matrix_shape rows cols (matrix s)"
    and row: "current_row s < rows" and col: "current_col s < cols"
    and buffer: "current_value s \<noteq> []"
    and test: "test_value as_int as_symbol (current_value s) = Inr ()"
    and valid: "call_validator validator as_int as_symbol (current_value s) = Inr (True, error)"
  shows "\<exists>formatted_value committed_matrix.
           format_number (current_value s) as_int as_symbol = Inr formatted_value
           \<and> committed_matrix =
               (matrix s)[current_row s := (matrix s ! current_row s)[current_col s := formatted_value]]
           \<and> (case commit_advance rows cols committed_matrix (current_row s) (current_col s) of
                Some (i, j) \<Rightarrow>
                  (case matrix_step rows cols as_int as_symbol validator Enter s of
                     Continue s' \<Rightarrow>
                       matrix s' = committed_matrix \<and> current_row s' = i \<and> current_col s' = j
                       \<and> current_value s' = [] \<and> error_message s' = []
                   | _ \<Rightarrow> False)
              | None \<Rightarrow>
                  (case matrix_step rows cols as_int as_symbol validator Enter s of
                     Finish s' \<Rightarrow> matrix s' = committed_matrix
                   | _ \<Rightarrow> False))
           \<and> (commit_advance rows cols committed_matrix (current_row s) (current_col s) = None)
               = is_matrix_complete committed_matrix"
proof -
  obtain fv where fv: "format_number (current_value s) as_int as_symbol = Inr fv"
    using test_value_format_number [OF test] by blast
  have ne: "fv \<noteq> []"
    using buffer fv by (rule format_number_nonempty)
  define m' where "m' = (matrix s)[current_row s := (matrix s ! current_row s)[current_col s := fv]]"
  have r: "current_row s < length (matrix s)"
    using shape row by (simp add: matrix_shape_def)
  then have c: "current_col s < length (matrix s ! current_row s)"
    using shape col by (simp add: matrix_shape_def list_all_length)
  have scans:
    "find_next_empty rows cols m' (current_row s) (current_col s)
       = scan_empty cols m' (current_row s * cols + current_col s + 1) (rows * cols)"
    "find_prev_empty rows cols m' (current_row s) (current_col s)
       = scan_empty cols m' 0 (current_row s * cols + current_col s)"
    using row col by (rule find_next_empty_scan, intro find_prev_empty_scan)
  have cell: "m' ! current_row s ! current_col s \<noteq> []"
    using r c ne by (simp add: m'_def)
  have "matrix_shape rows cols m'"
    unfolding m'_def using shape by (rule matrix_shape_update)
  then have complete: "is_matrix_complete m' = (\<forall>i < rows. \<forall>j < cols. m' ! i ! j \<noteq> [])"
    by (rule is_matrix_complete_cells)
  have "0 < cols"
    using col by simp
  then have none: "(commit_advance rows cols m' (current_row s) (current_col s) = None)
                     = is_matrix_complete m'"
    using commit_advance_None [OF row col cell]
      cells_by_index [of cols rows "\<lambda>i j. m' ! i ! j \<noteq> []"] complete
    by simp
  have step: "(case commit_advance rows cols m' (current_row s) (current_col s) of
                Some (i, j) \<Rightarrow>
                  (case matrix_step rows cols as_int as_symbol validator Enter s of
                     Continue s' \<Rightarrow>
                       matrix s' = m' \<and> current_row s' = i \<and> current_col s' = j
                       \<and> current_value s' = [] \<and> error_message s' = []
                   | _ \<Rightarrow> False)
              | None \<Rightarrow>
                  (case matrix_step rows cols as_int as_symbol validator Enter s of
                     Finish s' \<Rightarrow> matrix s' = m'
                   | _ \<Rightarrow> False))"
    using buffer test valid fv r c scans
    by (auto simp: matrix_step_def matrix_try_def commit_advance_def m'_def Let_def
             split: option.splits)
  show ?thesis
    apply (rule exI [of _ fv], rule exI [of _ m'])
    apply (intro conjI)
       apply (rule fv)
      apply (rule m'_def)
     apply (rule step)
    apply (rule none)
    done
qed

theorem commit_advance_policy_witness:
  "matrix_shape 2 2 [[''1'', ''2''], [[], []]]
   \<and> test_value True False ''9'' = Inr ()
   \<and> call_validator None True False ''9'' = Inr (True, [])
   \<and> format_number ''9'' True False = Inr ''9''
   \<and> commit_advance 2 2 [[''9'', ''2''], [[], []]] 0 0 = Some (1, 0)
   \<and> (case matrix_step 2 2 True False None Enter
             \<lparr>current_value = ''9'', error_message = [], validated = [''1'', ''2''],
              matrix = [[''1'', ''2''], [[], []]], current_row = 0, current_col = 0,
              committed_cells = {(0, 0), (0, 1)}\<rparr> of
         Continue s' \<Rightarrow>
           matrix s' = [[''9'', ''2''], [[], []]] \<and> current_row s' = 1 \<and> current_col s' = 0
           \<and> current_value s' = [] \<and> error_message s' = []
       | _ \<Rightarrow> False)
   \<and> \<not> is_matrix_complete [[''9'', ''2''], [[], []]]"
proof -
  let ?s = "\<lparr>current_value = ''9'', error_message = [], validated = [''1'', ''2''],
             matrix = [[''1'', ''2''], [[], []]], current_row = 0, current_col = 0,
             committed_cells = {(0, 0), (0, 1)}\<rparr>"
  have shape: "matrix_shape 2 2 (matrix ?s)"
    by (simp add: matrix_shape_def)
  have test: "test_value True False (current_value ?s) = Inr ()"
    by code_simp
  have valid: "call_validator None True False (current_value ?s) = Inr (True, [])"
    by code_simp
  have fmt: "format_number ''9'' True False = Inr ''9''"
    by code_simp
  have adv: "commit_advance 2 2 [[''9'', ''2''], [[], []]] 0 0 = Some (1, 0)"
    by code_simp
  show ?thesis
    using commit_advance_policy [of 2 2 ?s True False None "[]", OF shape _ _ _ test valid]
      shape test valid fmt adv
    by (auto split: step.splits)
qed

subsection \<open>Invariants of a session\<close>

lemma find_Some_set: "find P xs = Some x \<Longrightarrow> x \<in> set xs \<and> P x"
  by (induction xs) (auto split: if_splits)

lemma find_next_empty_bounds:
  "find_next_empty rows cols m row col = Some p \<Longrightarrow> fst p < rows \<and> snd p < cols"
  by (auto simp: find_next_empty_def dest!: find_Some_set)

lemma find_prev_empty_bounds:
  "find_prev_empty rows cols m row col = Some p \<Longrightarrow> fst p \<le> row \<and> snd p < cols"
  by (auto simp: find_prev_empty_def dest!: find_Some_set split: if_splits)

lemma array_wf_iff:
  "array_wf size' s
     = (length (array s) = size' \<and> (\<forall>i < size'. (array s ! i \<noteq> []) = (i \<in> committed s)))"
  by (simp add: array_wf_def list_all_iff Ball_def)

lemma matrix_wf_iff:
  "matrix_wf rows cols s
     = (matrix_shape rows cols (matrix s)
        \<and> (\<forall>i < rows. \<forall>j < cols. (matrix s ! i ! j \<noteq> []) = ((i, j) \<in> committed_cells s)))"
  by (simp add: matrix_wf_def list_all_iff Ball_def)

lemma array_step_cursor:
  "current_pos s < size' \<Longrightarrow> array_step size' as_int validator k s = Continue s'
     \<Longrightarrow> current_pos s' < size'"
  by (auto simp: array_step_def split: key.splits if_splits sum.splits prod.splits)

lemma array_step_wf:
  assumes "array_wf size' s" and "array_step size' as_int validator k s = Continue s'"
  shows "array_wf size' s'"
proof (cases k)
  case Enter
  show ?thesis
  proof (cases "current_value s = []")
    case True
    with assms Enter show ?thesis
      by (auto simp: array_step_def array_wf_iff split: if_splits)
  next
    case False
    with assms Enter show ?thesis
      by (auto simp: array_step_def array_wf_iff nth_list_update
               dest: format_number_nonempty split: if_splits sum.splits prod.splits)
  qed
qed (use assms in \<open>auto simp: array_step_def array_wf_iff split: if_splits\<close>)

lemma array_iter_step:
  "array_iter size' as_int validator k s = Continue s'
     \<or> array_iter size' as_int validator k s = Finish s'
   \<Longrightarrow> array_step size' as_int validator k s = Continue s'"
  by (auto simp: array_iter_def array_step_def
           split: step.splits if_splits key.splits sum.splits prod.splits)

lemma array_iter_finish:
  "array_iter size' as_int validator k s = Finish s' \<Longrightarrow> list_all (\<lambda>cell. cell \<noteq> []) (array s')"
  by (auto simp: array_iter_def array_step_def
           split: step.splits if_splits key.splits sum.splits prod.splits)

lemma array_loop_invariant:
  assumes "P s"
    and "\<And>k s s'. P s \<Longrightarrow> array_step size' as_int validator k s = Continue s' \<Longrightarrow> P s'"
    and "array_loop size' as_int validator s keys = Waiting s'
         \<or> array_loop size' as_int validator s keys = Returned (Some s')"
  shows "P s'"
  using assms
proof (induction size' as_int validator s keys rule: array_loop.induct)
  case (1 size' as_int validator s keys)
  note step = "1.prems"(2)
  show ?case
  proof (cases "array_getkey keys")
    case None
    with "1.prems"(1,3) show ?thesis
      by (simp add: array_loop.simps)
  next
    case (Some x)
    obtain k rest where x: "x = (k, rest)"
      by (cases x)
    show ?thesis
    proof (cases "array_iter size' as_int validator k s")
      case (Continue s1)
      then have "array_step size' as_int validator k s = Continue s1"
        by (simp add: array_iter_step)
      with "1.prems"(1) have "P s1"
        by (rule step)
      moreover have "array_loop size' as_int validator s1 rest = Waiting s'
                     \<or> array_loop size' as_int validator s1 rest = Returned (Some s')"
        using "1.prems"(3) Some x Continue by (simp add: array_loop.simps [of _ _ _ s])
      ultimately show ?thesis
        using "1.IH" [OF Some x [symmetric] Continue] step by blast
    next
      case Cancel
      with "1.prems"(3) Some x show ?thesis
        by (simp add: array_loop.simps)
    next
      case (Finish s1)
      then have "array_step size' as_int validator k s = Continue s1"
        by (simp add: array_iter_step)
      with "1.prems"(1) have "P s1"
        by (rule step)
      with "1.prems"(3) Some x Finish show ?thesis
        by (simp add: array_loop.simps)
    next
      case (Raise e)
      with "1.prems"(3) Some x show ?thesis
        by (simp add: array_loop.simps)
    qed
  qed
qed

lemma array_loop_returned:
  "array_loop size' as_int validator s keys = Returned (Some s')
     \<Longrightarrow> list_all (\<lambda>cell. cell \<noteq> []) (array s')"
proof (induction size' as_int validator s keys rule: array_loop.induct)
  case (1 size' as_int validator s keys)
  show ?case
  proof (cases "array_getkey keys")
    case None
    with "1.prems" show ?thesis
      by (simp add: array_loop.simps)
  next
    case (Some x)
    obtain k rest where x: "x = (k, rest)"
      by (cases x)
    show ?thesis
    proof (cases "array_iter size' as_int validator k s")
      case (Continue s1)
      then have "array_loop size' as_int validator s1 rest = Returned (Some s')"
        using "1.prems" Some x by (simp add: array_loop.simps [of _ _ _ s])
      then show ?thesis
        using "1.IH" [OF Some x [symmetric] Continue] by blast
    next
      case Cancel
      with "1.prems" Some x show ?thesis
        by (simp add: array_loop.simps)
    next
      case (Finish s1)
      with "1.prems" Some x have "s' = s1"
        by (simp add: array_loop.simps)
      with Finish show ?thesis
        by (simp add: array_iter_finish)
    next
      case (Raise e)
      with "1.prems" Some x show ?thesis
        by (simp add: array_loop.simps)
    qed
  qed
qed

lemma matrix_step_cursor:
  assumes "current_row s < rows" and "current_col s < cols"
    and "matrix_step rows cols as_int as_symbol validator k s = Continue s'
         \<or> matrix_step rows cols as_int as_symbol validator k s = Finish s'"
  shows "current_row s' < rows \<and> current_col s' < cols"
proof (cases k)
  case Enter
  with assms show ?thesis
    by (auto simp: matrix_step_def matrix_try_def Let_def
             dest: find_next_empty_bounds find_prev_empty_bounds
             split: if_splits sum.splits prod.splits option.splits exn.splits)
qed (use assms in \<open>auto simp: matrix_step_def split: if_splits\<close>)

lemma matrix_cells_update:
  assumes "matrix_wf rows cols s"
    and "current_row s < length (matrix s)"
    and "current_col s < length (matrix s ! current_row s)"
    and "fv \<noteq> []"
    and "matrix s' = (matrix s)[current_row s := (matrix s ! current_row s)[current_col s := fv]]"
    and "committed_cells s' = insert (current_row s, current_col s) (committed_cells s)"
  shows "matrix_wf rows cols s'"
proof -
  have shape: "matrix_shape rows cols (matrix s)"
    and cells: "\<And>i j. i < rows \<Longrightarrow> j < cols
                  \<Longrightarrow> (matrix s ! i ! j \<noteq> []) = ((i, j) \<in> committed_cells s)"
    using assms(1) by (simp_all add: matrix_wf_iff)
  have len: "length (matrix s) = rows"
    using shape by (simp add: matrix_shape_def)
  have "(matrix s' ! i ! j \<noteq> []) = ((i, j) \<in> committed_cells s')" if "i < rows" "j < cols" for i j
  proof (cases "i = current_row s")
    case True
    with that assms(2-6) cells [of i j] show ?thesis
      by (cases "j = current_col s") auto
  next
    case False
    with that assms(5,6) cells [of i j] len show ?thesis
      by auto
  qed
  moreover have "matrix_shape rows cols (matrix s')"
    using shape by (simp add: assms(5) matrix_shape_update)
  ultimately show ?thesis
    by (simp add: matrix_wf_iff)
qed

lemma matrix_step_grid:
  assumes "matrix_step rows cols as_int as_symbol validator k s = Continue s'
           \<or> matrix_step rows cols as_int as_symbol validator k s = Finish s'"
  shows "(matrix s' = matrix s \<and> committed_cells s' = committed_cells s)
         \<or> (\<exists>fv. current_value s \<noteq> []
                \<and> format_number (current_value s) as_int as_symbol = Inr fv
                \<and> current_row s < length (matrix s)
                \<and> current_col s < length (matrix s ! current_row s)
                \<and> matrix s' =
                    (matrix s)[current_row s := (matrix s ! current_row s)[current_col s := fv]]
                \<and> committed_cells s' = insert (current_row s, current_col s) (committed_cells s))"
proof (cases k)
  case Enter
  with assms show ?thesis
    by (auto simp: matrix_step_def matrix_try_def Let_def
             split: if_splits sum.splits prod.splits option.splits exn.splits)
qed (use assms in \<open>auto simp: matrix_step_def split: if_splits\<close>)

lemma matrix_step_wf:
  assumes "matrix_wf rows cols s"
    and "matrix_step rows cols as_int as_symbol validator k s = Continue s'
         \<or> matrix_step rows cols as_int as_symbol validator k s = Finish s'"
  shows "matrix_wf rows cols s'"
  using matrix_step_grid [OF assms(2)]
proof
  assume "matrix s' = matrix s \<and> committed_cells s' = committed_cells s"
  with assms(1) show ?thesis
    by (simp add: matrix_wf_iff)
next
  assume "\<exists>fv. current_value s \<noteq> []
            \<and> format_number (current_value s) as_int as_symbol = Inr fv
            \<and> current_row s < length (matrix s)
            \<and> current_col s < length (matrix s ! current_row s)
            \<and> matrix s' =
                (matrix s)[current_row s := (matrix s ! current_row s)[current_col s := fv]]
            \<and> committed_cells s' = insert (current_row s, current_col s) (committed_cells s)"
  then obtain fv where
    "current_value s \<noteq> []" "format_number (current_value s) as_int as_symbol = Inr fv"
    and rest: "current_row s < length (matrix s)"
      "current_col s < length (matrix s ! current_row s)"
      "matrix s' = (matrix s)[current_row s := (matrix s ! current_row s)[current_col s := fv]]"
      "committed_cells s' = insert (current_row s, current_col s) (committed_cells s)"
    by blast
  then have "fv \<noteq> []"
    by (simp add: format_number_nonempty)
  with assms(1) rest(1,2) show ?thesis
    using rest(3,4) by (rule matrix_cells_update)
qed

lemma matrix_step_finish:
  assumes "matrix_shape rows cols (matrix s)"
    and "matrix_step rows cols as_int as_symbol validator k s = Finish s'"
  shows "is_matrix_complete (matrix s')"
proof -
  from assms(2) obtain fv where
    buffer: "current_value s \<noteq> []"
    and fv: "format_number (current_value s) as_int as_symbol = Inr fv"
    and r: "current_row s < length (matrix s)"
    and c: "current_col s < length (matrix s ! current_row s)"
    and m': "matrix s' = (matrix s)[current_row s := (matrix s ! current_row s)[current_col s := fv]]"
    and nxt: "find_next_empty rows cols (matrix s') (current_row s) (current_col s) = None"
    and prv: "find_prev_empty rows cols (matrix s') (current_row s) (current_col s) = None"
    by (auto simp: matrix_step_def matrix_try_def Let_def
             split: key.splits if_splits sum.splits prod.splits option.splits exn.splits)
  have row: "current_row s < rows"
    using assms(1) r by (simp add: matrix_shape_def)
  have col: "current_col s < cols"
    using assms(1) r c by (simp add: matrix_shape_def list_all_length)
  have "fv \<noteq> []"
    using buffer fv by (rule format_number_nonempty)
  then have cell: "matrix s' ! current_row s ! current_col s \<noteq> []"
    using r c by (simp add: m')
  have "commit_advance rows cols (matrix s') (current_row s) (current_col s) = None"
    using nxt prv find_next_empty_scan [OF row col] find_prev_empty_scan [OF col]
    by (simp add: commit_advance_def)
  then have "\<forall>k < rows * cols. matrix s' ! (k div cols) ! (k mod cols) \<noteq> []"
    using commit_advance_None [OF row col cell] by simp
  then have "\<forall>i < rows. \<forall>j < cols. matrix s' ! i ! j \<noteq> []"
    using cells_by_index [of cols rows "\<lambda>i j. matrix s' ! i ! j \<noteq> []"] col by simp
  moreover have "matrix_shape rows cols (matrix s')"
    using assms(1) by (simp add: m' matrix_shape_update)
  ultimately show ?thesis
    by (simp add: is_matrix_complete_cells)
qed


lemma matrix_loop_invariant:
  assumes "P s"
    and "\<And>k s s'. P s
           \<Longrightarrow> matrix_step rows cols as_int as_symbol validator k s = Continue s'
               \<or> matrix_step rows cols as_int as_symbol validator k s = Finish s'
           \<Longrightarrow> P s'"
    and "matrix_loop rows cols as_int as_symbol validator s keys = Waiting s'
         \<or> matrix_loop rows cols as_int as_symbol validator s keys = Returned (Some s')"
  shows "P s'"
  using assms
proof (induction rows cols as_int as_symbol validator s keys rule: matrix_loop.induct)
  case (1 rows cols as_int as_symbol validator s keys)
  note step = "1.prems"(2)
  show ?case
  proof (cases "matrix_getkey keys")
    case None
    with "1.prems"(1,3) show ?thesis
      by (simp add: matrix_loop.simps)
  next
    case (Some x)
    obtain k rest where x: "x = (k, rest)"
      by (cases x)
    show ?thesis
    proof (cases "matrix_step rows cols as_int as_symbol validator k s")
      case (Continue s1)
      with "1.prems"(1) have "P s1"
        using step by blast
      moreover have "matrix_loop rows cols as_int as_symbol validator s1 rest = Waiting s'
                     \<or> matrix_loop rows cols as_int as_symbol validator s1 rest
                         = Returned (Some s')"
        using "1.prems"(3) Some x Continue by (simp add: matrix_loop.simps [of _ _ _ _ _ s])
      ultimately show ?thesis
        using "1.IH" [OF Some x [symmetric] Continue] step by blast
    next
      case Cancel
      with "1.prems"(3) Some x show ?thesis
        by (simp add: matrix_loop.simps)
    next
      case (Finish s1)
      with "1.prems"(1) have "P s1"
        using step by blast
      with "1.prems"(3) Some x Finish show ?thesis
        by (simp add: matrix_loop.simps)
    next
      case (Raise e)
      with "1.prems"(3) Some x show ?thesis
        by (simp add: matrix_loop.simps)
    qed
  qed
qed

lemma matrix_loop_returned:
  "matrix_wf rows cols s
     \<Longrightarrow> matrix_loop rows cols as_int as_symbol validator s keys = Returned (Some s')
     \<Longrightarrow> is_matrix_complete (matrix s')"
proof (induction rows cols as_int as_symbol validator s keys rule: matrix_loop.induct)
  case (1 rows cols as_int as_symbol validator s keys)
  show ?case
  proof (cases "matrix_getkey keys")
    case None
    with "1.prems" show ?thesis
      by (simp add: matrix_loop.simps)
  next
    case (Some x)
    obtain k rest where x: "x = (k, rest)"
      by (cases x)
    show ?thesis
    proof (cases "matrix_step rows cols as_int as_symbol validator k s")
      case (Continue s1)
      then have "matrix_wf rows cols s1"
        using "1.prems"(1) matrix_step_wf by blast
      moreover have "matrix_loop rows cols as_int as_symbol validator s1 rest = Returned (Some s')"
        using "1.prems"(2) Some x Continue by (simp add: matrix_loop.simps [of _ _ _ _ _ s])
      ultimately show ?thesis
        using "1.IH" [OF Some x [symmetric] Continue] by blast
    next
      case Cancel
      with "1.prems" Some x show ?thesis
        by (simp add: matrix_loop.simps)
    next
      case (Finish s1)
      with "1.prems" Some x have "s' = s1"
        by (simp add: matrix_loop.simps)
      moreover have "matrix_shape rows cols (matrix s)"
        using "1.prems"(1) by (simp add: matrix_wf_iff)
      ultimately show ?thesis
        using Finish matrix_step_finish by blast
    next
      case (Raise e)
      with "1.prems" Some x show ?thesis
        by (simp add: matrix_loop.simps)
    qed
  qed
qed

lemma array_init_wf: "array_wf size' (array_init size')"
  by (simp add: array_wf_iff array_init_def)

lemma matrix_init_wf: "matrix_wf rows cols (matrix_init rows cols)"
  by (simp add: matrix_wf_iff matrix_init_def matrix_shape_def list_all_length)

lemma array_complete_committed:
  assumes "array_wf size' s"
  shows "list_all (\<lambda>cell. cell \<noteq> []) (array s) = list_all (\<lambda>i. i \<in> committed s) [0 ..< size']"
  using assms by (auto simp: array_wf_iff list_all_length)

lemma matrix_complete_committed:
  assumes "matrix_wf rows cols s"
  shows "is_matrix_complete (matrix s)
           = list_all (\<lambda>i. list_all (\<lambda>j. (i, j) \<in> committed_cells s) [0 ..< cols]) [0 ..< rows]"
proof -
  have shape: "matrix_shape rows cols (matrix s)"
    and cells: "\<And>i j. i < rows \<Longrightarrow> j < cols
                  \<Longrightarrow> (matrix s ! i ! j \<noteq> []) = ((i, j) \<in> committed_cells s)"
    using assms by (simp_all add: matrix_wf_iff)
  have "is_matrix_complete (matrix s) = (\<forall>i < rows. \<forall>j < cols. matrix s ! i ! j \<noteq> [])"
    using shape by (rule is_matrix_complete_cells)
  also have "\<dots> = (\<forall>i < rows. \<forall>j < cols. (i, j) \<in> committed_cells s)"
    using cells by blast
  finally show ?thesis
    by (simp add: list_all_iff Ball_def)
qed

lemma array_loop_cursor:
  assumes "current_pos s < size'"
    and "array_loop size' as_int validator s keys = Waiting s'
         \<or> array_loop size' as_int validator s keys = Returned (Some s')"
  shows "current_pos s' < size'"
proof (rule array_loop_invariant [where P = "\<lambda>s. current_pos s < size'", OF assms(1) _ assms(2)])
  fix k s s'
  assume "current_pos s < size'" and "array_step size' as_int validator k s = Continue s'"
  then show "current_pos s' < size'"
    by (rule array_step_cursor)
qed

lemma array_loop_wf:
  assumes "array_wf size' s"
    and "array_loop size' as_int validator s keys = Waiting s'
         \<or> array_loop size' as_int validator s keys = Returned (Some s')"
  shows "array_wf size' s'"
proof (rule array_loop_invariant [where P = "array_wf size'", OF assms(1) _ assms(2)])
  fix k s s'
  assume "array_wf size' s" and "array_step size' as_int validator k s = Continue s'"
  then show "array_wf size' s'"
    by (rule array_step_wf)
qed

lemma matrix_loop_cursor:
  assumes "current_row s < rows \<and> current_col s < cols"
    and "matrix_loop rows cols as_int as_symbol validator s keys = Waiting s'
         \<or> matrix_loop rows cols as_int as_symbol validator s keys = Returned (Some s')"
  shows "current_row s' < rows \<and> current_col s' < cols"
proof (rule matrix_loop_invariant
              [where P = "\<lambda>s. current_row s < rows \<and> current_col s < cols",
               OF assms(1) _ assms(2)])
  fix k s s'
  assume "current_row s < rows \<and> current_col s < cols"
    and "matrix_step rows cols as_int as_symbol validator k s = Continue s'
         \<or> matrix_step rows cols as_int as_symbol validator k s = Finish s'"
  then show "current_row s' < rows \<and> current_col s' < cols"
    using matrix_step_cursor by blast
qed

lemma matrix_loop_wf:
  assumes "matrix_wf rows cols s"
    and "matrix_loop rows cols as_int as_symbol validator s keys = Waiting s'
         \<or> matrix_loop rows cols as_int as_symbol validator s keys = Returned (Some s')"
  shows "matrix_wf rows cols s'"
proof (rule matrix_loop_invariant [where P = "matrix_wf rows cols", OF assms(1) _ assms(2)])
  fix k s s'
  assume "matrix_wf rows cols s"
    and "matrix_step rows cols as_int as_symbol validator k s = Continue s'
         \<or> matrix_step rows cols as_int as_symbol validator k s = Finish s'"
  then show "matrix_wf rows cols s'"
    by (rule matrix_step_wf)
qed

text \<open>
  C9. With \<open>size \<ge> 1\<close> (array) or \<open>rows \<ge> 1\<close> and \<open>cols \<ge> 1\<close> (matrix), the cursor is
  inside the grid in every state a session reaches, whatever the keys typed.
\<close>

theorem cursor_in_bounds:
  "(1 \<le> size'
      \<and> (array_loop size' as_int validator (array_init size') keys = Waiting s
         \<or> array_loop size' as_int validator (array_init size') keys = Returned (Some s))
     \<longrightarrow> current_pos s < size')
   \<and> (1 \<le> rows \<and> 1 \<le> cols
      \<and> (matrix_loop rows cols as_int' as_symbol validator' (matrix_init rows cols) keys' = Waiting t
         \<or> matrix_loop rows cols as_int' as_symbol validator' (matrix_init rows cols) keys'
             = Returned (Some t))
     \<longrightarrow> current_row t < rows \<and> current_col t < cols)"
proof (intro conjI impI)
  assume a: "1 \<le> size'
      \<and> (array_loop size' as_int validator (array_init size') keys = Waiting s
         \<or> array_loop size' as_int validator (array_init size') keys = Returned (Some s))"
  then have "current_pos (array_init size') < size'"
    by (simp add: array_init_def)
  with a show "current_pos s < size'"
    using array_loop_cursor by blast
next
  assume m: "1 \<le> rows \<and> 1 \<le> cols
      \<and> (matrix_loop rows cols as_int' as_symbol validator' (matrix_init rows cols) keys' = Waiting t
         \<or> matrix_loop rows cols as_int' as_symbol validator' (matrix_init rows cols) keys'
             = Returned (Some t))"
  then have "current_row (matrix_init rows cols) < rows \<and> current_col (matrix_init rows cols) < cols"
    by (simp add: matrix_init_def)
  with m have "current_row t < rows \<and> current_col t < cols"
    using matrix_loop_cursor by blast
  then show "current_row t < rows" and "current_col t < cols"
    by simp_all
qed

theorem cursor_in_bounds_witness:
  "(1::nat) \<le> 2
   \<and> array_loop 2 False None (array_init 2) (''1'' @ [CHR 0x0D])
       = Waiting \<lparr>current_value = [], error_message = [], validated = [''1''],
                  array = [''1'', []], current_pos = 1, committed = {0}\<rparr>
   \<and> current_pos \<lparr>current_value = [], error_message = [], validated = [''1''],
                   array = [''1'', []], current_pos = 1, committed = {0}\<rparr> < 2
   \<and> matrix_loop 2 2 False False None (matrix_init 2 2) (''1'' @ [CHR 0x0D, CHR 0x1B, CHR ''['', CHR ''B''])
       = Waiting \<lparr>current_value = [], error_message = [], validated = [''1''],
                  matrix = [[''1'', []], [[], []]], current_row = 1, current_col = 1,
                  committed_cells = {(0, 0)}\<rparr>
   \<and> current_row \<lparr>current_value = [], error_message = [], validated = [''1''],
                  matrix = [[''1'', []], [[], []]], current_row = 1, current_col = 1,
                  committed_cells = {(0, 0)}\<rparr> < 2
   \<and> current_col \<lparr>current_value = [], error_message = [], validated = [''1''],
                  matrix = [[''1'', []], [[], []]], current_row = 1, current_col = 1,
                  committed_cells = {(0, 0)}\<rparr> < 2"
proof -
  let ?s = "\<lparr>current_value = [], error_message = [], validated = [''1''],
             array = [''1'', []], current_pos = 1, committed = {0}\<rparr>"
  let ?t = "\<lparr>current_value = [], error_message = [], validated = [''1''],
             matrix = [[''1'', []], [[], []]], current_row = 1, current_col = 1,
             committed_cells = {(0, 0)}\<rparr>"
  have a: "array_loop 2 False None (array_init 2) (''1'' @ [CHR 0x0D]) = Waiting ?s"
    by code_simp
  have m: "matrix_loop 2 2 False False None (matrix_init 2 2)
             (''1'' @ [CHR 0x0D, CHR 0x1B, CHR ''['', CHR ''B'']) = Waiting ?t"
    by code_simp
  show ?thesis
    using cursor_in_bounds [of 2 False None "''1'' @ [CHR 0x0D]" ?s 2 2 False False None
        "''1'' @ [CHR 0x0D, CHR 0x1B, CHR ''['', CHR ''B'']" ?t] a m
    by simp
qed

text \<open>
  C10. In every state a session reaches, in every mode and with any validator, a cell is
  non-empty exactly when a commit has written it; so the completion check (all cells
  non-empty) holds exactly when every cell has been committed, and a returned grid has
  no empty cell.
\<close>

theorem empty_string_encodes_empty_cell:
  "(array_loop size' as_int validator (array_init size') keys = Waiting s
      \<or> array_loop size' as_int validator (array_init size') keys = Returned (Some s)
     \<longrightarrow> array_wf size' s
         \<and> list_all (\<lambda>cell. cell \<noteq> []) (array s)
             = list_all (\<lambda>i. i \<in> committed s) [0 ..< size'])
   \<and> (array_loop size' as_int validator (array_init size') keys = Returned (Some s)
     \<longrightarrow> list_all (\<lambda>cell. cell \<noteq> []) (array s))
   \<and> (matrix_loop rows cols as_int' as_symbol validator' (matrix_init rows cols) keys' = Waiting t
      \<or> matrix_loop rows cols as_int' as_symbol validator' (matrix_init rows cols) keys'
          = Returned (Some t)
     \<longrightarrow> matrix_wf rows cols t
         \<and> is_matrix_complete (matrix t)
             = list_all (\<lambda>i. list_all (\<lambda>j. (i, j) \<in> committed_cells t) [0 ..< cols])
                 [0 ..< rows])
   \<and> (matrix_loop rows cols as_int' as_symbol validator' (matrix_init rows cols) keys'
        = Returned (Some t)
     \<longrightarrow> is_matrix_complete (matrix t))"
proof (intro conjI impI)
  assume "array_loop size' as_int validator (array_init size') keys = Waiting s
      \<or> array_loop size' as_int validator (array_init size') keys = Returned (Some s)"
  with array_init_wf show wf: "array_wf size' s"
    by (rule array_loop_wf)
  then show "list_all (\<lambda>cell. cell \<noteq> []) (array s)
               = list_all (\<lambda>i. i \<in> committed s) [0 ..< size']"
    by (rule array_complete_committed)
next
  assume "array_loop size' as_int validator (array_init size') keys = Returned (Some s)"
  then show "list_all (\<lambda>cell. cell \<noteq> []) (array s)"
    by (rule array_loop_returned)
next
  assume "matrix_loop rows cols as_int' as_symbol validator' (matrix_init rows cols) keys' = Waiting t
      \<or> matrix_loop rows cols as_int' as_symbol validator' (matrix_init rows cols) keys'
          = Returned (Some t)"
  with matrix_init_wf show wf: "matrix_wf rows cols t"
    by (rule matrix_loop_wf)
  then show "is_matrix_complete (matrix t)
               = list_all (\<lambda>i. list_all (\<lambda>j. (i, j) \<in> committed_cells t) [0 ..< cols])
                   [0 ..< rows]"
    by (rule matrix_complete_committed)
next
  assume "matrix_loop rows cols as_int' as_symbol validator' (matrix_init rows cols) keys'
            = Returned (Some t)"
  with matrix_init_wf show "is_matrix_complete (matrix t)"
    by (rule matrix_loop_returned)
qed

theorem empty_string_encodes_empty_cell_witness:
  "array_loop 2 False None (array_init 2) (''1'' @ [CHR 0x0D])
       = Waiting \<lparr>current_value = [], error_message = [], validated = [''1''],
                  array = [''1'', []], current_pos = 1, committed = {0}\<rparr>
   \<and> array_wf 2 \<lparr>current_value = [], error_message = [], validated = [''1''],
                  array = [''1'', []], current_pos = 1, committed = {0}\<rparr>
   \<and> matrix_loop 1 1 False True None (matrix_init 1 1) (''x'' @ [CHR 0x0D])
       = Returned (Some \<lparr>current_value = [], error_message = [], validated = [''x''],
                         matrix = [[''x'']], current_row = 0, current_col = 0,
                         committed_cells = {(0, 0)}\<rparr>)
   \<and> matrix_wf 1 1 \<lparr>current_value = [], error_message = [], validated = [''x''],
                     matrix = [[''x'']], current_row = 0, current_col = 0,
                     committed_cells = {(0, 0)}\<rparr>
   \<and> is_matrix_complete [[''x'']]"
proof -
  let ?s = "\<lparr>current_value = [], error_message = [], validated = [''1''],
             array = [''1'', []], current_pos = 1, committed = {0}\<rparr>"
  let ?t = "\<lparr>current_value = [], error_message = [], validated = [''x''],
             matrix = [[''x'']], current_row = 0, current_col = 0,
             committed_cells = {(0, 0)}\<rparr>"
  have a: "array_loop 2 False None (array_init 2) (''1'' @ [CHR 0x0D]) = Waiting ?s"
    by code_simp
  have m: "matrix_loop 1 1 False True None (matrix_init 1 1) (''x'' @ [CHR 0x0D])
             = Returned (Some ?t)"
    by code_simp
  show ?thesis
    using empty_string_encodes_empty_cell [of 2 False None "''1'' @ [CHR 0x0D]" ?s
        1 1 False True None "''x'' @ [CHR 0x0D]" ?t] a m
    by simp
qed

end
